theory Spec2Isabelle
  imports Main "HOL-Library.Word"
begin

unbundle bit_operations_syntax

section \<open>IKNP OT extension: data model\<close>

text \<open>
  The embedding follows \<^verbatim>\<open>mpc/ot/iknp_ote.hpp\<close>. A \<^verbatim>\<open>block\<close> is a 128-bit value, a
  \<^verbatim>\<open>uint8_t\<close> an 8-bit one. Sizes (\<^verbatim>\<open>size_t\<close>) are natural numbers. The counters of the
  four row loops are declared \<^verbatim>\<open>auto i = 0\<close>, that is \<^verbatim>\<open>int\<close>, and run against the
  \<^verbatim>\<open>size_t\<close> bound \<^verbatim>\<open>ROW_NUM\<close>: a counter is a natural number that never exceeds
  \<^verbatim>\<open>INT_MAX\<close>, and the increment of a counter that holds \<^verbatim>\<open>INT_MAX\<close> is the signed overflow
  after which the program has no defined behaviour. Output on \<^verbatim>\<open>std::cout\<close> (timing, progress
  lines) is not modelled; the line written to \<^verbatim>\<open>std::cerr\<close> before an \<^verbatim>\<open>exit\<close> is kept with
  the exit status.
\<close>

type_synonym block = "128 word"
type_synonym byte = "8 word"

definition BASE_LEN :: nat where
  "BASE_LEN = 128"

text \<open>A call of \<^verbatim>\<open>exit\<close>: the line printed on \<^verbatim>\<open>std::cerr\<close> and the exit status.\<close>

datatype failure = Failure (message: string) (exit_status: nat)

definition EXIT_FAILURE :: nat where
  "EXIT_FAILURE = 1"

text \<open>The largest value of an \<^verbatim>\<open>int\<close> (32 bits).\<close>

definition INT_MAX :: nat where
  "INT_MAX = 2147483647"

text \<open>
  \<^verbatim>\<open>std::vector<T> v(n)\<close> throws \<^verbatim>\<open>std::length_error\<close> when \<open>n\<close> exceeds the vector's
  \<^verbatim>\<open>max_size()\<close>, which on the 64-bit implementations is \<^verbatim>\<open>PTRDIFF_MAX / sizeof(T)\<close>. A
  \<^verbatim>\<open>block\<close> takes 16 bytes. One vector of the code is sized by the caller's length before
  the entry check has seen it, the result vector of \<^verbatim>\<open>Receive\<close>, and its length error is
  part of the model. The other sized vectors are built after the entry check and take
  at most \<open>16 * ROW_NUM\<close> bytes, within \<^verbatim>\<open>max_size()\<close> for every \<open>ROW_NUM\<close> that a row loop
  can count to; they are plain values. Whether the machine has the memory
  (\<^verbatim>\<open>std::bad_alloc\<close>) is not modelled.
\<close>

datatype cpp_exception = Length_error

definition vector_max_size :: "nat \<Rightarrow> nat" where
  "vector_max_size elem_size = (2 ^ 63 - 1) div elem_size"

definition sizeof_block :: nat where
  "sizeof_block = 16"

text \<open>
  \<^verbatim>\<open>CheckParameters\<close>: returns normally (\<open>Inr ()\<close>) unless one of the two dimensions is not
  a multiple of 128, in which case the process exits.
\<close>

definition CheckParameters :: "nat \<Rightarrow> nat \<Rightarrow> failure + unit" where
  "CheckParameters ROW_NUM COLUMN_NUM =
     (if ROW_NUM mod 128 \<noteq> 0 \<or> COLUMN_NUM mod 128 \<noteq> 0
      then Inl (Failure ''row or colulumn parameters is wrong'' EXIT_FAILURE)
      else Inr ())"

text \<open>
  \<^verbatim>\<open>struct PP\<close>. The type \<^verbatim>\<open>NPOT::PP\<close> of the base OT's parameters is not part of this
  file: it is the type parameter \<open>'b\<close>.
\<close>

record 'b PP =
  malicious :: byte
  baseOT :: 'b

text \<open>\<^verbatim>\<open>Setup\<close>, given the value that \<^verbatim>\<open>NPOT::Setup()\<close> returned.\<close>

definition Setup :: "'b \<Rightarrow> 'b PP" where
  "Setup npot_setup = \<lparr>malicious = 0, baseOT = npot_setup\<rparr>"


section \<open>Bit-matrix primitives\<close>

text \<open>A block, and a byte, from the function that gives each of its bits (bit 0 first).\<close>

definition bits_to_block :: "(nat \<Rightarrow> bool) \<Rightarrow> block" where
  "bits_to_block f = horner_sum of_bool 2 (map f [0..<128])"

definition bits_to_byte :: "(nat \<Rightarrow> bool) \<Rightarrow> byte" where
  "bits_to_byte f = horner_sum of_bool 2 (map f [0..<8])"

text \<open>
  Element \<open>(r, c)\<close> of a packed bit matrix with \<open>rows\<close> rows, stored column by column:
  bit \<open>r mod 8\<close> of the byte at \<open>c * rows / 8 + r / 8\<close>.
\<close>

definition matrix_bit :: "byte list \<Rightarrow> nat \<Rightarrow> nat \<Rightarrow> nat \<Rightarrow> bool" where
  "matrix_bit M rows r c = bit (M ! (c * rows div 8 + r div 8)) (r mod 8)"

text \<open>
  Modelled from the spec: \<^verbatim>\<open>Block::FromDenseBits\<close>, \<^verbatim>\<open>Block::ToDenseBits\<close>,
  \<^verbatim>\<open>Block::FromSparseBits\<close>, \<^verbatim>\<open>Block::XOR\<close> and \<^verbatim>\<open>empBitMatrixTranspose\<close> are declared in
  headers that are not part of the sources at hand. \<^verbatim>\<open>FromDenseBits\<close> reinterprets a
  packed bit array (8 bits per byte, bit 0 first) as blocks of 128 bits; \<^verbatim>\<open>ToDenseBits\<close> is
  its inverse; \<^verbatim>\<open>FromSparseBits\<close> packs an array holding one bit per byte; the transpose of a
  column-major \<open>rows \<times> cols\<close> matrix is the column-major \<open>cols \<times> rows\<close> matrix whose element
  \<open>(c, r)\<close> is element \<open>(r, c)\<close> of the source. A pointer into a buffer is the buffer and
  an offset.
\<close>

definition FromDenseBits :: "byte list \<Rightarrow> nat \<Rightarrow> nat \<Rightarrow> nat \<Rightarrow> block list" where
  "FromDenseBits dense_data off BIT_LEN BLOCK_LEN =
     map (\<lambda>k. bits_to_block
                (\<lambda>b. bit (dense_data ! (off + (128 * k + b) div 8)) ((128 * k + b) mod 8)))
         [0..<BLOCK_LEN]"

definition ToDenseBits :: "block list \<Rightarrow> nat \<Rightarrow> nat \<Rightarrow> byte list" where
  "ToDenseBits block_data BLOCK_LEN BIT_LEN =
     map (\<lambda>t. bits_to_byte
                (\<lambda>b. bit (block_data ! ((8 * t + b) div 128)) ((8 * t + b) mod 128)))
         [0..<BIT_LEN div 8]"

definition FromSparseBits :: "byte list \<Rightarrow> nat \<Rightarrow> nat \<Rightarrow> block list" where
  "FromSparseBits bit_data BIT_LEN BLOCK_LEN =
     map (\<lambda>k. bits_to_block (\<lambda>b. bit_data ! (128 * k + b) \<noteq> 0)) [0..<BLOCK_LEN]"

definition Block_XOR :: "block list \<Rightarrow> block list \<Rightarrow> block list" where
  "Block_XOR vec_a vec_b = map2 (XOR) vec_a vec_b"

definition empBitMatrixTranspose :: "byte list \<Rightarrow> nat \<Rightarrow> nat \<Rightarrow> byte list" where
  "empBitMatrixTranspose src ROW_NUM COLUMN_NUM =
     map (\<lambda>t. bits_to_byte
                (\<lambda>b. matrix_bit src ROW_NUM (t div (COLUMN_NUM div 8))
                                           (8 * (t mod (COLUMN_NUM div 8)) + b)))
         [0..<ROW_NUM * COLUMN_NUM div 8]"

text \<open>Writing \<open>xs\<close> into a buffer at an offset (the destination pointer of \<^verbatim>\<open>ToDenseBits\<close>).\<close>

definition store_bytes :: "byte list \<Rightarrow> nat \<Rightarrow> byte list \<Rightarrow> byte list" where
  "store_bytes buf off xs = take off buf @ xs @ drop (off + length xs) buf"

section \<open>PRG and hash\<close>

text \<open>
  Modelled from the spec: the PRG and the correlation-robust hash are collaborators
  (\<^verbatim>\<open>PRG::\<close>, \<^verbatim>\<open>Hash::\<close>), taken as ideal oracles. A seed is a value of type \<open>'s\<close>. A
  generator, asked for \<open>n\<close> items from a seed, yields the stream it draws them from and
  the advanced seed; \<^verbatim>\<open>ReSeed\<close> yields the fresh seed of a key (\<^verbatim>\<open>seed_from(key_block)\<close>).
  The same oracles serve both parties, so equal seeds give equal streams.
\<close>

record 's oracles =
  GenRandomBits_o :: "'s \<Rightarrow> nat \<Rightarrow> (nat \<Rightarrow> bool) \<times> 's"
  GenRandomBitMatrix_o :: "'s \<Rightarrow> nat \<Rightarrow> nat \<Rightarrow> (nat \<Rightarrow> byte) \<times> 's"
  GenRandomBlocks_o :: "'s \<Rightarrow> nat \<Rightarrow> (nat \<Rightarrow> block) \<times> 's"
  ReSeed_o :: "block \<Rightarrow> nat \<Rightarrow> 's"
  BlocksToBlock_o :: "block list \<Rightarrow> block"

definition GenRandomBits :: "'s oracles \<Rightarrow> 's \<Rightarrow> nat \<Rightarrow> byte list \<times> 's" where
  "GenRandomBits orc seed LEN =
     (map (\<lambda>i. if fst (GenRandomBits_o orc seed LEN) i then 1 else 0) [0..<LEN],
      snd (GenRandomBits_o orc seed LEN))"

definition GenRandomBitMatrix :: "'s oracles \<Rightarrow> 's \<Rightarrow> nat \<Rightarrow> nat \<Rightarrow> byte list \<times> 's" where
  "GenRandomBitMatrix orc seed ROW_NUM COLUMN_NUM =
     (map (fst (GenRandomBitMatrix_o orc seed ROW_NUM COLUMN_NUM)) [0..<ROW_NUM * COLUMN_NUM div 8],
      snd (GenRandomBitMatrix_o orc seed ROW_NUM COLUMN_NUM))"

definition GenRandomBlocks :: "'s oracles \<Rightarrow> 's \<Rightarrow> nat \<Rightarrow> block list \<times> 's" where
  "GenRandomBlocks orc seed LEN =
     (map (fst (GenRandomBlocks_o orc seed LEN)) [0..<LEN], snd (GenRandomBlocks_o orc seed LEN))"

definition ReSeed :: "'s oracles \<Rightarrow> block \<Rightarrow> nat \<Rightarrow> 's" where
  "ReSeed orc key key_id = ReSeed_o orc key key_id"

definition BlocksToBlock :: "'s oracles \<Rightarrow> block list \<Rightarrow> block" where
  "BlocksToBlock orc input_block = BlocksToBlock_o orc input_block"


section \<open>Network I/O and the base OT\<close>

text \<open>
  A party is a process: it returns, exits, leaves by an exception that nothing catches,
  runs into the signed overflow of a loop counter, or performs one I/O action and goes
  on. The actions are those of \<^verbatim>\<open>NetIO\<close> (\<^verbatim>\<open>SendBlocks\<close>, \<^verbatim>\<open>ReceiveBlocks\<close>, \<^verbatim>\<open>SendBlock\<close>,
  \<^verbatim>\<open>ReceiveBlock\<close>) and the two calls of the base OT (\<^verbatim>\<open>NPOT::Send\<close>, \<^verbatim>\<open>NPOT::Receive\<close>),
  which carry the base OT's public parameters.
\<close>

datatype ('b, 'a) proc =
    Return 'a
  | Exit failure
  | Throw cpp_exception
  | Signed_overflow
  | NPOT_Send 'b "block list" "block list" nat "('b, 'a) proc"
  | NPOT_Receive 'b "byte list" nat "block list \<Rightarrow> ('b, 'a) proc"
  | SendBlocks "block list" "('b, 'a) proc"
  | ReceiveBlocks nat "block list \<Rightarrow> ('b, 'a) proc"
  | SendBlock block "('b, 'a) proc"
  | ReceiveBlock "block \<Rightarrow> ('b, 'a) proc"

datatype party = Sender | Receiver

fun peer :: "party \<Rightarrow> party" where
  "peer Sender = Receiver"
| "peer Receiver = Sender"

text \<open>What is seen on the wire: the base OT's sub-transcript, or blocks sent by a party.\<close>

datatype event = BaseOT_transcript | Sent party "block list"

text \<open>
  The network: for each party the blocks in flight towards it (a reliable byte stream
  carries no framing, so successive sends concatenate), the key pairs offered to the base
  OT and not yet collected, and the log of the wire.
\<close>

record net =
  inbox :: "party \<Rightarrow> block list"
  ot_offer :: "(block list \<times> block list) option"
  wire :: "event list"

definition net0 :: net where
  "net0 = \<lparr>inbox = (\<lambda>_. []), ot_offer = None, wire = []\<rparr>"

definition deliver :: "party \<Rightarrow> block list \<Rightarrow> net \<Rightarrow> net" where
  "deliver p bs n =
     n\<lparr>inbox := (inbox n)(peer p := inbox n (peer p) @ bs), wire := wire n @ [Sent p bs]\<rparr>"

definition consume :: "party \<Rightarrow> nat \<Rightarrow> net \<Rightarrow> net" where
  "consume p m n = n\<lparr>inbox := (inbox n)(p := drop m (inbox n p))\<rparr>"

text \<open>
  Modelled from the spec: the base OT (\<^verbatim>\<open>naor_pinkas_ot.hpp\<close>) is an ideal 1-out-of-2 OT.
  Its sender offers two key vectors; its receiver, with selection bits, obtains for each
  index the first key when the bit is 0 and the second one otherwise.
\<close>

definition ideal_OT :: "block list \<Rightarrow> block list \<Rightarrow> byte list \<Rightarrow> nat \<Rightarrow> block list" where
  "ideal_OT vec_K0 vec_K1 vec_selection_bit LEN =
     map (\<lambda>j. if vec_selection_bit ! j = 0 then vec_K0 ! j else vec_K1 ! j) [0..<LEN]"

datatype ('b, 'a) status =
    Finished 'a | Exited failure | Thrown cpp_exception | Overflowed | Blocked "('b, 'a) proc"

fun is_Blocked :: "('b, 'a) status \<Rightarrow> bool" where
  "is_Blocked (Blocked c) = True"
| "is_Blocked _ = False"

text \<open>
  A party runs until it returns, exits, throws, overflows a counter, or waits for data
  that has not arrived. A receive of \<open>m\<close> blocks waits until \<open>m\<close> blocks are in flight
  towards the party.
\<close>

primrec exec :: "('b, 'a) proc \<Rightarrow> party \<Rightarrow> net \<Rightarrow> ('b, 'a) status \<times> net" where
  "exec (Return x) p n = (Finished x, n)"
| "exec (Exit f) p n = (Exited f, n)"
| "exec (Throw e) p n = (Thrown e, n)"
| "exec Signed_overflow p n = (Overflowed, n)"
| "exec (NPOT_Send pp vec_K0 vec_K1 LEN c) p n =
     exec c p (n\<lparr>ot_offer := Some (vec_K0, vec_K1), wire := wire n @ [BaseOT_transcript]\<rparr>)"
| "exec (NPOT_Receive pp vec_selection_bit LEN k) p n =
     (case ot_offer n of
        None \<Rightarrow> (Blocked (NPOT_Receive pp vec_selection_bit LEN k), n)
      | Some (vec_K0, vec_K1) \<Rightarrow>
          exec (k (ideal_OT vec_K0 vec_K1 vec_selection_bit LEN)) p (n\<lparr>ot_offer := None\<rparr>))"
| "exec (SendBlocks bs c) p n = exec c p (deliver p bs n)"
| "exec (ReceiveBlocks m k) p n =
     (if m \<le> length (inbox n p)
      then exec (k (take m (inbox n p))) p (consume p m n)
      else (Blocked (ReceiveBlocks m k), n))"
| "exec (SendBlock b c) p n = exec c p (deliver p [b] n)"
| "exec (ReceiveBlock k) p n =
     (if 1 \<le> length (inbox n p)
      then exec (k (hd (inbox n p))) p (consume p 1 n)
      else (Blocked (ReceiveBlock k), n))"

fun resume :: "('b, 'a) status \<Rightarrow> party \<Rightarrow> net \<Rightarrow> ('b, 'a) status \<times> net" where
  "resume (Blocked c) p n = exec c p n"
| "resume (Finished x) p n = (Finished x, n)"
| "resume (Exited f) p n = (Exited f, n)"
| "resume (Thrown e) p n = (Thrown e, n)"
| "resume Overflowed p n = (Overflowed, n)"

text \<open>
  The two parties in lock-step: in each round the sender runs as far as it can, then
  the receiver; the run is over when neither waits any more. \<open>None\<close>: the rounds allowed
  were not enough.
\<close>

fun run :: "nat \<Rightarrow> ('b, 'a) status \<Rightarrow> ('b, 'c) status \<Rightarrow> net
            \<Rightarrow> (('b, 'a) status \<times> ('b, 'c) status \<times> net) option" where
  "run 0 s r n = None"
| "run (Suc fuel) s r n =
     (let (s', n1) = resume s Sender n;
          (r', n2) = resume r Receiver n1
      in if is_Blocked s' \<or> is_Blocked r' then run fuel s' r' n2 else Some (s', r', n2))"

definition paired :: "nat \<Rightarrow> ('b, 'a) proc \<Rightarrow> ('b, 'c) proc
                      \<Rightarrow> (('b, 'a) status \<times> ('b, 'c) status \<times> net) option" where
  "paired fuel sender receiver = run fuel (Blocked sender) (Blocked receiver) net0"


section \<open>The extension sender\<close>

text \<open>
  The column loop of \<^verbatim>\<open>Send\<close> (the same text stands in \<^verbatim>\<open>OnesidedSend\<close>): for each column
  \<open>j\<close> receive the two ciphertexts, derive the pad from \<open>vec_K[j]\<close>, decrypt the ciphertext
  that the selection bit names, and store the plaintext as column \<open>j\<close> of \<open>Q\<close>. The loop
  hands \<open>Q\<close> to what follows it.
\<close>

function Send_columns :: "'s oracles \<Rightarrow> block list \<Rightarrow> byte list \<Rightarrow> nat \<Rightarrow> nat \<Rightarrow> 's \<Rightarrow> byte list
                          \<Rightarrow> (byte list \<Rightarrow> ('b, 'a) proc) \<Rightarrow> ('b, 'a) proc" where
  "Send_columns orc vec_K vec_selection_bit ROW_NUM j seed Q cont =
     (if j < BASE_LEN then
        ReceiveBlocks (ROW_NUM div 128) (\<lambda>vec_inner_C0.
        ReceiveBlocks (ROW_NUM div 128) (\<lambda>vec_inner_C1.
          let seed1 = ReSeed orc (vec_K ! j) 0;
              vec_pad = fst (GenRandomBlocks orc seed1 (ROW_NUM div 128));
              seed2 = snd (GenRandomBlocks orc seed1 (ROW_NUM div 128));
              vec_plaintext = (if vec_selection_bit ! j = 0
                               then Block_XOR vec_inner_C0 vec_pad
                               else Block_XOR vec_inner_C1 vec_pad);
              Q1 = store_bytes Q (j * ROW_NUM div 8)
                     (ToDenseBits vec_plaintext (ROW_NUM div 128) ROW_NUM)
          in Send_columns orc vec_K vec_selection_bit ROW_NUM (j + 1) seed2 Q1 cont))
      else cont Q)"
  by pat_completeness auto
termination
  by (relation "measure (\<lambda>(orc, vec_K, vec_selection_bit, ROW_NUM, j, seed, Q, cont). BASE_LEN - j)")
     auto

declare Send_columns.simps [simp del]

text \<open>
  The row loop of \<^verbatim>\<open>Send\<close>: the two outer ciphertexts of every row. \<open>None\<close>: the counter
  overflowed.
\<close>

function Send_rows :: "'s oracles \<Rightarrow> byte list \<Rightarrow> block list \<Rightarrow> block list \<Rightarrow> block list
                       \<Rightarrow> nat \<Rightarrow> nat \<Rightarrow> nat \<Rightarrow> block list \<times> block list
                       \<Rightarrow> (block list \<times> block list) option" where
  "Send_rows orc Q_tanspose vec_selection_block vec_m0 vec_m1 ROW_NUM COLUMN_NUM i outer =
     (if i < ROW_NUM then
        let Q_row_block = FromDenseBits Q_tanspose (i * COLUMN_NUM div 8) BASE_LEN (BASE_LEN div 128);
            vec_outer_C0 = (fst outer)[i := vec_m0 ! i XOR BlocksToBlock orc Q_row_block];
            vec_outer_C1 = (snd outer)[i := vec_m1 ! i XOR
                              BlocksToBlock orc (Block_XOR Q_row_block vec_selection_block)]
        in if i = INT_MAX then None
           else Send_rows orc Q_tanspose vec_selection_block vec_m0 vec_m1 ROW_NUM COLUMN_NUM
                  (i + 1) (vec_outer_C0, vec_outer_C1)
      else Some outer)"
  by pat_completeness auto
termination
  by (relation "measure (\<lambda>(orc, Q_tanspose, vec_selection_block, vec_m0, vec_m1, ROW_NUM,
                            COLUMN_NUM, i, outer). ROW_NUM - i)")
     auto

declare Send_rows.simps [simp del]

text \<open>
  Phase 1 of the sender, as the source names it (the same text opens \<^verbatim>\<open>Send\<close> and
  \<^verbatim>\<open>OnesidedSend\<close>): draw the base OT's selection bits, obtain one key per column from
  the base OT, and run the column loop on a zeroed \<open>Q\<close>. \<open>seed0\<close> is the seed that
  \<^verbatim>\<open>PRG::SetSeed(nullptr, 0)\<close> returned to the sender. What follows phase 1 is given the
  selection bits and \<open>Q\<close>.
\<close>

definition Send_phase1 :: "'s oracles \<Rightarrow> 's \<Rightarrow> 'b PP \<Rightarrow> nat \<Rightarrow> nat
                           \<Rightarrow> (byte list \<Rightarrow> byte list \<Rightarrow> ('b, 'a) proc) \<Rightarrow> ('b, 'a) proc" where
  "Send_phase1 orc seed0 pp ROW_NUM COLUMN_NUM cont =
     (let vec_selection_bit = fst (GenRandomBits orc seed0 BASE_LEN);
          seed = snd (GenRandomBits orc seed0 BASE_LEN)
      in NPOT_Receive (baseOT pp) vec_selection_bit BASE_LEN (\<lambda>vec_K.
           Send_columns orc vec_K vec_selection_bit ROW_NUM 0 seed
             (replicate (ROW_NUM div 8 * COLUMN_NUM) 0)
             (\<lambda>Q. cont vec_selection_bit Q)))"

text \<open>\<^verbatim>\<open>Send\<close>: the entry check, phase 1, the transpose, the row loop, the two sends.\<close>

definition Send :: "'s oracles \<Rightarrow> 's \<Rightarrow> 'b PP \<Rightarrow> block list \<Rightarrow> block list \<Rightarrow> nat \<Rightarrow> ('b, unit) proc" where
  "Send orc seed0 pp vec_m0 vec_m1 EXTEND_LEN =
     (let ROW_NUM = EXTEND_LEN; COLUMN_NUM = BASE_LEN in
      case CheckParameters ROW_NUM COLUMN_NUM of
        Inl f \<Rightarrow> Exit f
      | Inr _ \<Rightarrow>
          Send_phase1 orc seed0 pp ROW_NUM COLUMN_NUM (\<lambda>vec_selection_bit Q.
            let Q_tanspose = empBitMatrixTranspose Q ROW_NUM COLUMN_NUM;
                vec_selection_block =
                  FromSparseBits vec_selection_bit BASE_LEN (BASE_LEN div 128);
                vec_outer_C0 = replicate ROW_NUM 0;
                vec_outer_C1 = replicate ROW_NUM 0
            in case Send_rows orc Q_tanspose vec_selection_block vec_m0 vec_m1
                      ROW_NUM COLUMN_NUM 0 (vec_outer_C0, vec_outer_C1) of
                 None \<Rightarrow> Signed_overflow
               | Some outer \<Rightarrow>
                   SendBlocks (take ROW_NUM (fst outer))
                     (SendBlocks (take ROW_NUM (snd outer)) (Return ()))))"

text \<open>The row loop of \<^verbatim>\<open>OnesidedSend\<close>: one ciphertext per row, sent at once.\<close>

function OnesidedSend_rows :: "'s oracles \<Rightarrow> byte list \<Rightarrow> block list \<Rightarrow> block list \<Rightarrow> nat \<Rightarrow> nat
                               \<Rightarrow> nat \<Rightarrow> ('b, 'a) proc \<Rightarrow> ('b, 'a) proc" where
  "OnesidedSend_rows orc Q_tanspose vec_selection_block vec_m ROW_NUM COLUMN_NUM i cont =
     (if i < ROW_NUM then
        let Q_row_block = FromDenseBits Q_tanspose (i * COLUMN_NUM div 8) BASE_LEN (BASE_LEN div 128);
            outer_C = vec_m ! i XOR BlocksToBlock orc (Block_XOR Q_row_block vec_selection_block)
        in SendBlock outer_C
             (if i = INT_MAX then Signed_overflow
              else OnesidedSend_rows orc Q_tanspose vec_selection_block vec_m ROW_NUM COLUMN_NUM
                     (i + 1) cont)
      else cont)"
  by pat_completeness auto
termination
  by (relation "measure (\<lambda>(orc, Q_tanspose, vec_selection_block, vec_m, ROW_NUM, COLUMN_NUM, i,
                            cont). ROW_NUM - i)")
     auto

declare OnesidedSend_rows.simps [simp del]

definition OnesidedSend :: "'s oracles \<Rightarrow> 's \<Rightarrow> 'b PP \<Rightarrow> block list \<Rightarrow> nat \<Rightarrow> ('b, unit) proc" where
  "OnesidedSend orc seed0 pp vec_m EXTEND_LEN =
     (let ROW_NUM = EXTEND_LEN; COLUMN_NUM = BASE_LEN in
      case CheckParameters ROW_NUM COLUMN_NUM of
        Inl f \<Rightarrow> Exit f
      | Inr _ \<Rightarrow>
          Send_phase1 orc seed0 pp ROW_NUM COLUMN_NUM (\<lambda>vec_selection_bit Q.
            let Q_tanspose = empBitMatrixTranspose Q ROW_NUM COLUMN_NUM;
                vec_selection_block =
                  FromSparseBits vec_selection_bit BASE_LEN (BASE_LEN div 128)
            in OnesidedSend_rows orc Q_tanspose vec_selection_block vec_m
                 ROW_NUM COLUMN_NUM 0 (Return ())))"

section \<open>The extension receiver\<close>

text \<open>
  The column loop of \<^verbatim>\<open>Receive\<close> (the same text stands in \<^verbatim>\<open>OnesidedReceive\<close>): column \<open>j\<close>
  of \<open>T\<close>, and its sum with the selection block, each under a pad of its own key.
\<close>

function Receive_columns :: "'s oracles \<Rightarrow> byte list \<Rightarrow> block list \<Rightarrow> block list \<Rightarrow> block list
                             \<Rightarrow> nat \<Rightarrow> nat \<Rightarrow> nat \<Rightarrow> 's \<Rightarrow> ('b, 'a) proc \<Rightarrow> ('b, 'a) proc" where
  "Receive_columns orc T vec_K0 vec_K1 vec_selection_block ROW_NUM COLUMN_NUM j seed cont =
     (if j < COLUMN_NUM then
        let vec_m0 = FromDenseBits T (j * ROW_NUM div 8) ROW_NUM (ROW_NUM div 128);
            vec_m1 = Block_XOR vec_m0 vec_selection_block;
            seed1 = ReSeed orc (vec_K0 ! j) 0;
            vec_pad0 = fst (GenRandomBlocks orc seed1 (ROW_NUM div 128));
            vec_inner_C0 = Block_XOR vec_m0 vec_pad0;
            seed2 = ReSeed orc (vec_K1 ! j) 0;
            vec_pad1 = fst (GenRandomBlocks orc seed2 (ROW_NUM div 128));
            seed3 = snd (GenRandomBlocks orc seed2 (ROW_NUM div 128));
            vec_inner_C1 = Block_XOR vec_m1 vec_pad1
        in SendBlocks (take (ROW_NUM div 128) vec_inner_C0)
             (SendBlocks (take (ROW_NUM div 128) vec_inner_C1)
                (Receive_columns orc T vec_K0 vec_K1 vec_selection_block ROW_NUM COLUMN_NUM
                   (j + 1) seed3 cont))
      else cont)"
  by pat_completeness auto
termination
  by (relation "measure (\<lambda>(orc, T, vec_K0, vec_K1, vec_selection_block, ROW_NUM, COLUMN_NUM, j,
                            seed, cont). COLUMN_NUM - j)")
     auto

declare Receive_columns.simps [simp del]

text \<open>
  The row loop of \<^verbatim>\<open>Receive\<close>: unmask the ciphertext that the selection bit names.
  \<open>None\<close>: the counter overflowed.
\<close>

function Receive_rows :: "'s oracles \<Rightarrow> byte list \<Rightarrow> byte list \<Rightarrow> block list \<Rightarrow> block list
                          \<Rightarrow> nat \<Rightarrow> nat \<Rightarrow> nat \<Rightarrow> block list \<Rightarrow> block list option" where
  "Receive_rows orc T_transpose vec_selection_bit vec_outer_C0 vec_outer_C1 ROW_NUM COLUMN_NUM i
                vec_result =
     (if i < ROW_NUM then
        let T_row_block = FromDenseBits T_transpose (i * COLUMN_NUM div 8) BASE_LEN (BASE_LEN div 128);
            vec_result1 = (if vec_selection_bit ! i = 0
                           then vec_result[i := vec_outer_C0 ! i XOR BlocksToBlock orc T_row_block]
                           else vec_result[i := vec_outer_C1 ! i XOR BlocksToBlock orc T_row_block])
        in if i = INT_MAX then None
           else Receive_rows orc T_transpose vec_selection_bit vec_outer_C0 vec_outer_C1 ROW_NUM
                  COLUMN_NUM (i + 1) vec_result1
      else Some vec_result)"
  by pat_completeness auto
termination
  by (relation "measure (\<lambda>(orc, T_transpose, vec_selection_bit, vec_outer_C0, vec_outer_C1,
                            ROW_NUM, COLUMN_NUM, i, vec_result). ROW_NUM - i)")
     auto

declare Receive_rows.simps [simp del]

text \<open>
  \<^verbatim>\<open>Receive\<close>. \<open>seed0\<close> is the seed that \<^verbatim>\<open>PRG::SetSeed(nullptr, 0)\<close> returned to the
  receiver. The result vector of \<^verbatim>\<open>EXTEND_LEN\<close> blocks is constructed first, before the
  entry check: when \<^verbatim>\<open>EXTEND_LEN\<close> exceeds the largest size of a vector of blocks, the
  constructor throws and the function is left.
\<close>

definition Receive :: "'s oracles \<Rightarrow> 's \<Rightarrow> 'b PP \<Rightarrow> byte list \<Rightarrow> nat \<Rightarrow> ('b, block list) proc" where
  "Receive orc seed0 pp vec_selection_bit EXTEND_LEN =
     (if vector_max_size sizeof_block < EXTEND_LEN then Throw Length_error
      else
       let vec_result = replicate EXTEND_LEN 0;
           ROW_NUM = EXTEND_LEN; COLUMN_NUM = BASE_LEN in
       case CheckParameters ROW_NUM COLUMN_NUM of
         Inl f \<Rightarrow> Exit f
       | Inr _ \<Rightarrow>
          (let T = fst (GenRandomBitMatrix orc seed0 ROW_NUM COLUMN_NUM);
               seed1 = snd (GenRandomBitMatrix orc seed0 ROW_NUM COLUMN_NUM);
               vec_K0 = fst (GenRandomBlocks orc seed1 BASE_LEN);
               seed2 = snd (GenRandomBlocks orc seed1 BASE_LEN);
               vec_K1 = fst (GenRandomBlocks orc seed2 BASE_LEN);
               seed3 = snd (GenRandomBlocks orc seed2 BASE_LEN)
           in NPOT_Send (baseOT pp) vec_K0 vec_K1 BASE_LEN
                (let vec_selection_block =
                       FromSparseBits vec_selection_bit ROW_NUM (ROW_NUM div 128)
                 in Receive_columns orc T vec_K0 vec_K1 vec_selection_block ROW_NUM COLUMN_NUM 0 seed3
                      (let T_transpose = empBitMatrixTranspose T ROW_NUM COLUMN_NUM
                       in ReceiveBlocks ROW_NUM (\<lambda>vec_outer_C0.
                          ReceiveBlocks ROW_NUM (\<lambda>vec_outer_C1.
                            case Receive_rows orc T_transpose vec_selection_bit vec_outer_C0
                                   vec_outer_C1 ROW_NUM COLUMN_NUM 0 vec_result of
                              None \<Rightarrow> Signed_overflow
                            | Some vec_result1 \<Rightarrow> Return vec_result1))))))"

text \<open>
  The row loop of \<^verbatim>\<open>OnesidedReceive\<close>: receive one ciphertext per row, and append its
  plaintext to the result only when the selection bit is 1.
\<close>

function OnesidedReceive_rows :: "'s oracles \<Rightarrow> byte list \<Rightarrow> byte list \<Rightarrow> nat \<Rightarrow> nat \<Rightarrow> nat
                                  \<Rightarrow> block list \<Rightarrow> ('b, block list) proc" where
  "OnesidedReceive_rows orc T_transpose vec_selection_bit ROW_NUM COLUMN_NUM i vec_result =
     (if i < ROW_NUM then
        ReceiveBlock (\<lambda>outer_C.
          let T_row_block = FromDenseBits T_transpose (i * COLUMN_NUM div 8) BASE_LEN (BASE_LEN div 128);
              vec_result1 = (if vec_selection_bit ! i = 1
                             then vec_result @ [outer_C XOR BlocksToBlock orc T_row_block]
                             else vec_result)
          in if i = INT_MAX then Signed_overflow
             else OnesidedReceive_rows orc T_transpose vec_selection_bit ROW_NUM COLUMN_NUM (i + 1)
                    vec_result1)
      else Return vec_result)"
  by pat_completeness auto
termination
  by (relation "measure (\<lambda>(orc, T_transpose, vec_selection_bit, ROW_NUM, COLUMN_NUM, i,
                            vec_result). ROW_NUM - i)")
     auto

declare OnesidedReceive_rows.simps [simp del]

definition OnesidedReceive :: "'s oracles \<Rightarrow> 's \<Rightarrow> 'b PP \<Rightarrow> byte list \<Rightarrow> nat
                               \<Rightarrow> ('b, block list) proc" where
  "OnesidedReceive orc seed0 pp vec_selection_bit EXTEND_LEN =
     (let vec_result = [];
          ROW_NUM = EXTEND_LEN; COLUMN_NUM = BASE_LEN in
      case CheckParameters ROW_NUM COLUMN_NUM of
        Inl f \<Rightarrow> Exit f
      | Inr _ \<Rightarrow>
         (let T = fst (GenRandomBitMatrix orc seed0 ROW_NUM COLUMN_NUM);
              seed1 = snd (GenRandomBitMatrix orc seed0 ROW_NUM COLUMN_NUM);
              vec_K0 = fst (GenRandomBlocks orc seed1 BASE_LEN);
              seed2 = snd (GenRandomBlocks orc seed1 BASE_LEN);
              vec_K1 = fst (GenRandomBlocks orc seed2 BASE_LEN);
              seed3 = snd (GenRandomBlocks orc seed2 BASE_LEN)
          in NPOT_Send (baseOT pp) vec_K0 vec_K1 BASE_LEN
               (let vec_selection_block =
                      FromSparseBits vec_selection_bit ROW_NUM (ROW_NUM div 128)
                in Receive_columns orc T vec_K0 vec_K1 vec_selection_block ROW_NUM COLUMN_NUM 0 seed3
                     (let T_transpose = empBitMatrixTranspose T ROW_NUM COLUMN_NUM
                      in OnesidedReceive_rows orc T_transpose vec_selection_bit ROW_NUM COLUMN_NUM 0
                           vec_result))))"


section \<open>Persistence of the public parameters\<close>

text \<open>
  Modelled from the spec: the stream operators of \<^verbatim>\<open>Serialization\<close> and of \<^verbatim>\<open>NPOT::PP\<close> are
  not part of the sources at hand. A stream is the list of its bytes. The base OT's
  parameters are written and read by a codec \<open>(put, get)\<close>; reading yields the value and
  the rest of the stream. A \<^verbatim>\<open>uint8_t\<close> is written as one byte; reading it from an
  exhausted stream fails and leaves the variable as it was.
\<close>

record 'b codec =
  put_baseOT :: "'b \<Rightarrow> byte list"
  get_baseOT :: "byte list \<Rightarrow> 'b \<times> byte list"

definition put_uint8 :: "byte list \<Rightarrow> byte \<Rightarrow> byte list" where
  "put_uint8 fout x = fout @ [x]"

definition get_uint8 :: "byte list \<Rightarrow> byte \<Rightarrow> byte \<times> byte list" where
  "get_uint8 fin x = (case fin of [] \<Rightarrow> (x, []) | y # rest \<Rightarrow> (y, rest))"

text \<open>\<^verbatim>\<open>operator<<\<close> and \<^verbatim>\<open>operator>>\<close> for \<^verbatim>\<open>PP\<close>: the base OT's parameters, then the flag.\<close>

definition put_PP :: "'b codec \<Rightarrow> byte list \<Rightarrow> 'b PP \<Rightarrow> byte list" where
  "put_PP cd fout pp =
     (let fout1 = fout @ put_baseOT cd (baseOT pp);
          fout2 = put_uint8 fout1 (malicious pp)
      in fout2)"

definition get_PP :: "'b codec \<Rightarrow> byte list \<Rightarrow> 'b PP \<Rightarrow> 'b PP \<times> byte list" where
  "get_PP cd fin pp =
     (let pp1 = pp\<lparr>baseOT := fst (get_baseOT cd fin)\<rparr>;
          fin1 = snd (get_baseOT cd fin);
          pp2 = pp1\<lparr>malicious := fst (get_uint8 fin1 (malicious pp1))\<rparr>;
          fin2 = snd (get_uint8 fin1 (malicious pp1))
      in (pp2, fin2))"

text \<open>
  The file system: the contents of the files that exist, and the names under which a
  file can be opened for writing.
\<close>

record file_system =
  files :: "string \<Rightarrow> byte list option"
  can_create :: "string \<Rightarrow> bool"

text \<open>
  \<^verbatim>\<open>SavePP\<close> and \<^verbatim>\<open>FetchPP\<close>. Both exit with status 1 when the file cannot be opened.
  \<^verbatim>\<open>FetchPP\<close> fills the \<^verbatim>\<open>PP\<close> that the caller passes by reference.
\<close>

definition SavePP :: "'b codec \<Rightarrow> file_system \<Rightarrow> 'b PP \<Rightarrow> string \<Rightarrow> failure + file_system" where
  "SavePP cd fs pp pp_filename =
     (if \<not> can_create fs pp_filename
      then Inl (Failure (pp_filename @ '' open error'') 1)
      else Inr (fs\<lparr>files := (files fs)(pp_filename := Some (put_PP cd [] pp))\<rparr>))"

definition FetchPP :: "'b codec \<Rightarrow> file_system \<Rightarrow> 'b PP \<Rightarrow> string \<Rightarrow> failure + 'b PP" where
  "FetchPP cd fs pp pp_filename =
     (case files fs pp_filename of
        None \<Rightarrow> Inl (Failure (pp_filename @ '' open error'') 1)
      | Some fin \<Rightarrow> Inr (fst (get_PP cd fin pp)))"

section \<open>The values of a paired run\<close>

text \<open>
  Names for the values that the two parties compute in a run, used to state what a run
  does. The pad of a key: the blocks drawn after reseeding from it.
\<close>

definition pad_of :: "'s oracles \<Rightarrow> block \<Rightarrow> nat \<Rightarrow> block list" where
  "pad_of orc key n = fst (GenRandomBlocks orc (ReSeed orc key 0) n)"

text \<open>Column \<open>j\<close> of the receiver's matrix, and the two ciphertexts the receiver sends for it.\<close>

definition T_column :: "byte list \<Rightarrow> nat \<Rightarrow> nat \<Rightarrow> block list" where
  "T_column T ROW_NUM j = FromDenseBits T (j * ROW_NUM div 8) ROW_NUM (ROW_NUM div 128)"

definition inner_C0 :: "'s oracles \<Rightarrow> byte list \<Rightarrow> block list \<Rightarrow> nat \<Rightarrow> nat \<Rightarrow> block list" where
  "inner_C0 orc T vec_K0 ROW_NUM j =
     take (ROW_NUM div 128)
       (Block_XOR (T_column T ROW_NUM j) (pad_of orc (vec_K0 ! j) (ROW_NUM div 128)))"

definition inner_C1 :: "'s oracles \<Rightarrow> byte list \<Rightarrow> block list \<Rightarrow> block list \<Rightarrow> nat \<Rightarrow> nat
                        \<Rightarrow> block list" where
  "inner_C1 orc T vec_K1 vec_selection_block ROW_NUM j =
     take (ROW_NUM div 128)
       (Block_XOR (Block_XOR (T_column T ROW_NUM j) vec_selection_block)
                  (pad_of orc (vec_K1 ! j) (ROW_NUM div 128)))"

text \<open>
  One turn of the sender's column loop on \<open>Q\<close>, when the ciphertexts received for column
  \<open>j\<close> are \<open>c0 j\<close> and \<open>c1 j\<close>.
\<close>

definition Q_store :: "'s oracles \<Rightarrow> block list \<Rightarrow> byte list \<Rightarrow> nat \<Rightarrow> (nat \<Rightarrow> block list)
                       \<Rightarrow> (nat \<Rightarrow> block list) \<Rightarrow> byte list \<Rightarrow> nat \<Rightarrow> byte list" where
  "Q_store orc vec_K vec_selection_bit ROW_NUM c0 c1 Q j =
     store_bytes Q (j * ROW_NUM div 8)
       (ToDenseBits (if vec_selection_bit ! j = 0
                     then Block_XOR (c0 j) (pad_of orc (vec_K ! j) (ROW_NUM div 128))
                     else Block_XOR (c1 j) (pad_of orc (vec_K ! j) (ROW_NUM div 128)))
                    (ROW_NUM div 128) ROW_NUM)"

text \<open>Row \<open>i\<close> of a matrix, as both row loops load it from the transpose.\<close>

definition row_block :: "byte list \<Rightarrow> nat \<Rightarrow> nat \<Rightarrow> nat \<Rightarrow> block list" where
  "row_block M ROW_NUM COLUMN_NUM i =
     FromDenseBits (empBitMatrixTranspose M ROW_NUM COLUMN_NUM) (i * COLUMN_NUM div 8)
                   BASE_LEN (BASE_LEN div 128)"

text \<open>
  The receiver's matrix, its two key vectors and its packed selection bits; the sender's
  base-OT selection bits, their packed form, and the matrix \<open>Q\<close> it reconstructs from the
  receiver's ciphertexts with the keys of the base OT.
\<close>

definition Receiver_T :: "'s oracles \<Rightarrow> 's \<Rightarrow> nat \<Rightarrow> byte list" where
  "Receiver_T orc seedR N = fst (GenRandomBitMatrix orc seedR N BASE_LEN)"

definition Receiver_K0 :: "'s oracles \<Rightarrow> 's \<Rightarrow> nat \<Rightarrow> block list" where
  "Receiver_K0 orc seedR N =
     fst (GenRandomBlocks orc (snd (GenRandomBitMatrix orc seedR N BASE_LEN)) BASE_LEN)"

definition Receiver_K1 :: "'s oracles \<Rightarrow> 's \<Rightarrow> nat \<Rightarrow> block list" where
  "Receiver_K1 orc seedR N =
     fst (GenRandomBlocks orc
            (snd (GenRandomBlocks orc (snd (GenRandomBitMatrix orc seedR N BASE_LEN)) BASE_LEN))
            BASE_LEN)"

definition Receiver_R :: "byte list \<Rightarrow> nat \<Rightarrow> block list" where
  "Receiver_R vec_selection_bit N = FromSparseBits vec_selection_bit N (N div 128)"

definition Sender_s :: "'s oracles \<Rightarrow> 's \<Rightarrow> byte list" where
  "Sender_s orc seedS = fst (GenRandomBits orc seedS BASE_LEN)"

definition Sender_S :: "'s oracles \<Rightarrow> 's \<Rightarrow> block list" where
  "Sender_S orc seedS = FromSparseBits (Sender_s orc seedS) BASE_LEN (BASE_LEN div 128)"

definition Sender_Q :: "'s oracles \<Rightarrow> 's \<Rightarrow> 's \<Rightarrow> byte list \<Rightarrow> nat \<Rightarrow> byte list" where
  "Sender_Q orc seedS seedR vec_selection_bit N =
     foldl (Q_store orc
              (ideal_OT (Receiver_K0 orc seedR N) (Receiver_K1 orc seedR N) (Sender_s orc seedS) BASE_LEN)
              (Sender_s orc seedS) N
              (inner_C0 orc (Receiver_T orc seedR N) (Receiver_K0 orc seedR N) N)
              (inner_C1 orc (Receiver_T orc seedR N) (Receiver_K1 orc seedR N)
                 (Receiver_R vec_selection_bit N) N))
           (replicate (N div 8 * BASE_LEN) 0) [0..<BASE_LEN]"

text \<open>The column phase on the wire, and the sender's ciphertexts of the two variants.\<close>

definition column_events :: "'s oracles \<Rightarrow> 's \<Rightarrow> byte list \<Rightarrow> nat \<Rightarrow> event list" where
  "column_events orc seedR vec_selection_bit N =
     concat (map (\<lambda>j. [Sent Receiver (inner_C0 orc (Receiver_T orc seedR N) (Receiver_K0 orc seedR N) N j),
                        Sent Receiver (inner_C1 orc (Receiver_T orc seedR N) (Receiver_K1 orc seedR N)
                                         (Receiver_R vec_selection_bit N) N j)])
                 [0..<BASE_LEN])"

definition outer_C0 :: "'s oracles \<Rightarrow> byte list \<Rightarrow> block list \<Rightarrow> nat \<Rightarrow> block list" where
  "outer_C0 orc Q vec_m0 N =
     map (\<lambda>i. vec_m0 ! i XOR BlocksToBlock orc (row_block Q N BASE_LEN i)) [0..<N]"

definition outer_C1 :: "'s oracles \<Rightarrow> byte list \<Rightarrow> block list \<Rightarrow> block list \<Rightarrow> nat \<Rightarrow> block list" where
  "outer_C1 orc Q vec_selection_block vec_m1 N =
     map (\<lambda>i. vec_m1 ! i XOR
               BlocksToBlock orc (Block_XOR (row_block Q N BASE_LEN i) vec_selection_block))
         [0..<N]"

text \<open>
  The blocks in flight towards the sender, and the network, once the receiver has
  offered its keys and sent the ciphertexts of all columns; the network once the sender
  has collected its keys and read the columns.
\<close>

definition columns_in_flight :: "'s oracles \<Rightarrow> 's \<Rightarrow> byte list \<Rightarrow> nat \<Rightarrow> block list" where
  "columns_in_flight orc seedR vec_selection_bit N =
     concat (map (\<lambda>j. inner_C0 orc (Receiver_T orc seedR N) (Receiver_K0 orc seedR N) N j @
                       inner_C1 orc (Receiver_T orc seedR N) (Receiver_K1 orc seedR N)
                         (Receiver_R vec_selection_bit N) N j)
                 [0..<BASE_LEN])"

definition net_after_columns :: "'s oracles \<Rightarrow> 's \<Rightarrow> byte list \<Rightarrow> nat \<Rightarrow> net" where
  "net_after_columns orc seedR vec_selection_bit N =
     \<lparr>inbox = (\<lambda>_. [])(Sender := columns_in_flight orc seedR vec_selection_bit N),
      ot_offer = Some (Receiver_K0 orc seedR N, Receiver_K1 orc seedR N),
      wire = BaseOT_transcript # column_events orc seedR vec_selection_bit N\<rparr>"

definition net_after_phase1 :: "'s oracles \<Rightarrow> 's \<Rightarrow> byte list \<Rightarrow> nat \<Rightarrow> net" where
  "net_after_phase1 orc seedR vec_selection_bit N =
     \<lparr>inbox = (\<lambda>_. []), ot_offer = None,
      wire = BaseOT_transcript # column_events orc seedR vec_selection_bit N\<rparr>"

text \<open>What is left of \<^verbatim>\<open>Receive\<close>, and of \<^verbatim>\<open>OnesidedReceive\<close>, after the column loop.\<close>

definition Receive_tail :: "'s oracles \<Rightarrow> 's \<Rightarrow> byte list \<Rightarrow> nat \<Rightarrow> ('b, block list) proc" where
  "Receive_tail orc seedR vec_selection_bit N =
     ReceiveBlocks N (\<lambda>vec_outer_C0. ReceiveBlocks N (\<lambda>vec_outer_C1.
       case Receive_rows orc (empBitMatrixTranspose (Receiver_T orc seedR N) N BASE_LEN)
              vec_selection_bit vec_outer_C0 vec_outer_C1 N BASE_LEN 0 (replicate N 0) of
         None \<Rightarrow> Signed_overflow
       | Some vec_result \<Rightarrow> Return vec_result))"

definition OnesidedReceive_tail :: "'s oracles \<Rightarrow> 's \<Rightarrow> byte list \<Rightarrow> nat \<Rightarrow> ('b, block list) proc" where
  "OnesidedReceive_tail orc seedR vec_selection_bit N =
     OnesidedReceive_rows orc (empBitMatrixTranspose (Receiver_T orc seedR N) N BASE_LEN)
       vec_selection_bit N BASE_LEN 0 []"

text \<open>
  The ciphertext of row \<open>i\<close> in the one-sided variant, and the network at the end of a
  run of each variant: nothing in flight, and on the wire the base OT, the columns, and
  the sender's ciphertexts.
\<close>

definition onesided_C :: "'s oracles \<Rightarrow> byte list \<Rightarrow> block list \<Rightarrow> block list \<Rightarrow> nat \<Rightarrow> nat \<Rightarrow> block" where
  "onesided_C orc Q vec_selection_block vec_m N i =
     vec_m ! i XOR BlocksToBlock orc (Block_XOR (row_block Q N BASE_LEN i) vec_selection_block)"

definition final_net :: "'s oracles \<Rightarrow> 's \<Rightarrow> 's \<Rightarrow> byte list \<Rightarrow> block list \<Rightarrow> block list \<Rightarrow> nat \<Rightarrow> net" where
  "final_net orc seedS seedR vec_selection_bit vec_m0 vec_m1 N =
     \<lparr>inbox = (\<lambda>_. []), ot_offer = None,
      wire = BaseOT_transcript # column_events orc seedR vec_selection_bit N @
             [Sent Sender (outer_C0 orc (Sender_Q orc seedS seedR vec_selection_bit N) vec_m0 N),
              Sent Sender (outer_C1 orc (Sender_Q orc seedS seedR vec_selection_bit N)
                             (Sender_S orc seedS) vec_m1 N)]\<rparr>"

definition onesided_final_net :: "'s oracles \<Rightarrow> 's \<Rightarrow> 's \<Rightarrow> byte list \<Rightarrow> block list \<Rightarrow> nat \<Rightarrow> net" where
  "onesided_final_net orc seedS seedR vec_selection_bit vec_m N =
     \<lparr>inbox = (\<lambda>_. []), ot_offer = None,
      wire = BaseOT_transcript # column_events orc seedR vec_selection_bit N @
             map (\<lambda>i. Sent Sender [onesided_C orc (Sender_Q orc seedS seedR vec_selection_bit N)
                                      (Sender_S orc seedS) vec_m N i]) [0..<N]\<rparr>"

section \<open>Instances used to exercise the model\<close>

text \<open>
  A concrete PRG and hash: the seed is a pair of a key and a position in its stream; the
  stream of a key is \<open>key + position\<close>; the hash adds up its input and one.
\<close>

definition toy_oracles :: "(block \<times> nat) oracles" where
  "toy_oracles =
     \<lparr>GenRandomBits_o = (\<lambda>seed n. (\<lambda>i. odd (i + snd seed), (fst seed, snd seed + n))),
      GenRandomBitMatrix_o = (\<lambda>seed rows cols. (\<lambda>i. of_nat (i + snd seed),
                                                 (fst seed, snd seed + rows * cols div 8))),
      GenRandomBlocks_o = (\<lambda>seed n. (\<lambda>i. fst seed + of_nat (snd seed + i),
                                      (fst seed, snd seed + n))),
      ReSeed_o = (\<lambda>key key_id. (key XOR of_nat key_id, 0)),
      BlocksToBlock_o = (\<lambda>bs. sum_list bs + 1)\<rparr>"

text \<open>A codec for base-OT parameters that are a single byte.\<close>

definition toy_codec :: "byte codec" where
  "toy_codec = \<lparr>put_baseOT = (\<lambda>b. [b]), get_baseOT = (\<lambda>fin. (hd fin, tl fin))\<rparr>"

definition toy_fs :: file_system where
  "toy_fs = \<lparr>files = (\<lambda>_. None), can_create = (\<lambda>_. True)\<rparr>"

section \<open>The entry check\<close>

lemma CheckParameters_ok:
  "ROW_NUM mod 128 = 0 \<Longrightarrow> COLUMN_NUM mod 128 = 0 \<Longrightarrow> CheckParameters ROW_NUM COLUMN_NUM = Inr ()"
  by (simp add: CheckParameters_def)

lemma CheckParameters_base: "EXTEND_LEN mod 128 = 0 \<Longrightarrow> CheckParameters EXTEND_LEN BASE_LEN = Inr ()"
  by (simp add: CheckParameters_def BASE_LEN_def)


text \<open>
  C4, as the code has it. \<^verbatim>\<open>CheckParameters\<close> exits with its message exactly when one of
  the two dimensions is not a multiple of 128. It does not compare \<^verbatim>\<open>COLUMN_NUM\<close> with
  128: every multiple of 128 passes.
\<close>

theorem CheckParameters_exits_iff:
  "CheckParameters ROW_NUM COLUMN_NUM =
     (if ROW_NUM mod 128 = 0 \<and> COLUMN_NUM mod 128 = 0 then Inr ()
      else Inl (Failure ''row or colulumn parameters is wrong'' EXIT_FAILURE))"
  by (simp add: CheckParameters_def)

theorem CheckParameters_exits_iff_witness:
  "CheckParameters 100 128 = Inl (Failure ''row or colulumn parameters is wrong'' EXIT_FAILURE)
   \<and> CheckParameters 256 128 = Inr ()"
  using CheckParameters_exits_iff [of 100 128] CheckParameters_exits_iff [of 256 128] by simp

text \<open>
  C4, as the claim states it, fails: with \<^verbatim>\<open>COLUMN_NUM\<close> = 256, which is not 128, the check
  returns normally.
\<close>

theorem CheckParameters_accepts_256:
  "(256::nat) \<noteq> 128 \<and> CheckParameters 128 256 = Inr ()"
  by (simp add: CheckParameters_def)

lemma vector_max_size_block: "vector_max_size sizeof_block = 576460752303423487"
  by (simp add: vector_max_size_def sizeof_block_def)



section \<open>Setup and the flag\<close>

text \<open>
  C10. Whatever the base OT's setup returns, the parameters that \<^verbatim>\<open>Setup\<close> returns have
  the flag \<^verbatim>\<open>malicious\<close> at 0.
\<close>

theorem Setup_malicious_zero: "malicious (Setup npot_setup) = 0"
  by (simp add: Setup_def)

text \<open>
  C8. The four entry points read the base OT's parameters only: two parameter values
  that agree on them give the same process, whatever the flag. The same process has
  the same transcript and the same result against every behaviour of the network and of
  the base OT.
\<close>

theorem entry_points_ignore_malicious:
  assumes "baseOT pp = baseOT pp'"
  shows "Send orc seedS pp vec_m0 vec_m1 EXTEND_LEN = Send orc seedS pp' vec_m0 vec_m1 EXTEND_LEN
       \<and> Receive orc seedR pp vec_selection_bit EXTEND_LEN =
           Receive orc seedR pp' vec_selection_bit EXTEND_LEN
       \<and> OnesidedSend orc seedS pp vec_m EXTEND_LEN = OnesidedSend orc seedS pp' vec_m EXTEND_LEN
       \<and> OnesidedReceive orc seedR pp vec_selection_bit EXTEND_LEN =
           OnesidedReceive orc seedR pp' vec_selection_bit EXTEND_LEN"
  unfolding Send_def Receive_def OnesidedSend_def OnesidedReceive_def Send_phase1_def assms
  by simp

theorem entry_points_ignore_malicious_witness:
  "baseOT \<lparr>malicious = 0, baseOT = (7::byte)\<rparr> = baseOT \<lparr>malicious = 1, baseOT = (7::byte)\<rparr>
   \<and> Send toy_oracles (1, 0) \<lparr>malicious = 0, baseOT = (7::byte)\<rparr> [] [] 0 =
       Send toy_oracles (1, 0) \<lparr>malicious = 1, baseOT = (7::byte)\<rparr> [] [] 0
   \<and> Receive toy_oracles (2, 0) \<lparr>malicious = 0, baseOT = (7::byte)\<rparr> [] 0 =
       Receive toy_oracles (2, 0) \<lparr>malicious = 1, baseOT = (7::byte)\<rparr> [] 0
   \<and> OnesidedSend toy_oracles (1, 0) \<lparr>malicious = 0, baseOT = (7::byte)\<rparr> [] 0 =
       OnesidedSend toy_oracles (1, 0) \<lparr>malicious = 1, baseOT = (7::byte)\<rparr> [] 0
   \<and> OnesidedReceive toy_oracles (2, 0) \<lparr>malicious = 0, baseOT = (7::byte)\<rparr> [] 0 =
       OnesidedReceive toy_oracles (2, 0) \<lparr>malicious = 1, baseOT = (7::byte)\<rparr> [] 0"
proof -
  have h: "baseOT \<lparr>malicious = 0, baseOT = (7::byte)\<rparr> = baseOT \<lparr>malicious = 1, baseOT = (7::byte)\<rparr>"
    by simp
  show ?thesis
    using h entry_points_ignore_malicious [OF h, of toy_oracles "(1, 0)" "[]" "[]" 0 "(2, 0)" "[]" "[]"]
    by blast
qed

section \<open>Persistence round trip\<close>

lemma get_PP_put_PP:
  assumes "\<And>b rest. get_baseOT cd (put_baseOT cd b @ rest) = (b, rest)"
  shows "get_PP cd (put_PP cd [] pp) pp0 = (pp, [])"
  by (simp add: get_PP_def put_PP_def put_uint8_def get_uint8_def assms Let_def)

text \<open>
  C6. Given a codec of the base OT's parameters whose reader inverts its writer, and a
  file name that can be opened for writing: \<^verbatim>\<open>SavePP\<close> leaves a file holding the base OT's
  parameters followed by the single byte \<^verbatim>\<open>malicious\<close>, and \<^verbatim>\<open>FetchPP\<close> on that file yields
  the parameters that were saved, whatever the \<^verbatim>\<open>PP\<close> passed to it held before.
\<close>

theorem FetchPP_SavePP:
  assumes "\<forall>b rest. get_baseOT cd (put_baseOT cd b @ rest) = (b, rest)"
    and "can_create fs pp_filename"
  shows "SavePP cd fs pp pp_filename =
           Inr (fs\<lparr>files := (files fs)(pp_filename :=
                                Some (put_baseOT cd (baseOT pp) @ [malicious pp]))\<rparr>)
       \<and> FetchPP cd (fs\<lparr>files := (files fs)(pp_filename :=
                                Some (put_baseOT cd (baseOT pp) @ [malicious pp]))\<rparr>)
                  pp0 pp_filename = Inr pp"
proof -
  have inv: "\<And>b rest. get_baseOT cd (put_baseOT cd b @ rest) = (b, rest)"
    using assms(1) by blast
  have put: "put_PP cd [] pp = put_baseOT cd (baseOT pp) @ [malicious pp]"
    by (simp add: put_PP_def put_uint8_def)
  have "get_PP cd (put_PP cd [] pp) pp0 = (pp, [])"
    by (rule get_PP_put_PP [OF inv])
  then show ?thesis
    using assms(2) by (simp add: SavePP_def FetchPP_def put)
qed


theorem FetchPP_SavePP_witness:
  "(\<forall>b rest. get_baseOT toy_codec (put_baseOT toy_codec b @ rest) = (b, rest))
   \<and> can_create toy_fs ''iknpote.pp''
   \<and> SavePP toy_codec toy_fs \<lparr>malicious = 1, baseOT = 7\<rparr> ''iknpote.pp'' =
         Inr (toy_fs\<lparr>files := (files toy_fs)(''iknpote.pp'' :=
                Some (put_baseOT toy_codec (baseOT \<lparr>malicious = 1, baseOT = 7\<rparr>)
                      @ [malicious \<lparr>malicious = 1, baseOT = (7::byte)\<rparr>]))\<rparr>)
   \<and> FetchPP toy_codec
        (toy_fs\<lparr>files := (files toy_fs)(''iknpote.pp'' :=
                Some (put_baseOT toy_codec (baseOT \<lparr>malicious = 1, baseOT = 7\<rparr>)
                      @ [malicious \<lparr>malicious = 1, baseOT = (7::byte)\<rparr>]))\<rparr>)
        (Setup 0) ''iknpote.pp'' = Inr \<lparr>malicious = 1, baseOT = 7\<rparr>"
proof -
  have h1: "\<forall>b rest. get_baseOT toy_codec (put_baseOT toy_codec b @ rest) = (b, rest)"
    by (simp add: toy_codec_def)
  have h2: "can_create toy_fs ''iknpote.pp''"
    by (simp add: toy_fs_def)
  show ?thesis
    using h1 h2 FetchPP_SavePP [OF h1 h2, of "\<lparr>malicious = 1, baseOT = 7\<rparr>" "Setup 0"]
    by blast
qed


section \<open>Bits, blocks and the transpose\<close>

lemma bit_bits_to_block: "bit (bits_to_block f) n \<longleftrightarrow> n < 128 \<and> f n"
  by (auto simp add: bits_to_block_def bit_horner_sum_bit_word_iff)

lemma bit_bits_to_byte: "bit (bits_to_byte f) n \<longleftrightarrow> n < 8 \<and> f n"
  by (auto simp add: bits_to_byte_def bit_horner_sum_bit_word_iff)

lemma bits_to_block_cong: "(\<And>b. b < 128 \<Longrightarrow> f b = g b) \<Longrightarrow> bits_to_block f = bits_to_block g"
  by (rule bit_word_eqI) (auto simp add: bit_bits_to_block)

lemma length_FromDenseBits [simp]: "length (FromDenseBits d off bl n) = n"
  by (simp add: FromDenseBits_def)

lemma length_ToDenseBits [simp]: "length (ToDenseBits bs n bl) = bl div 8"
  by (simp add: ToDenseBits_def)

lemma length_FromSparseBits [simp]: "length (FromSparseBits d bl n) = n"
  by (simp add: FromSparseBits_def)

lemma length_Block_XOR [simp]: "length (Block_XOR xs ys) = min (length xs) (length ys)"
  by (simp add: Block_XOR_def)

lemma nth_Block_XOR: "k < length xs \<Longrightarrow> k < length ys \<Longrightarrow> Block_XOR xs ys ! k = xs ! k XOR ys ! k"
  by (simp add: Block_XOR_def)

lemma length_GenRandomBlocks [simp]: "length (fst (GenRandomBlocks orc sd n)) = n"
  by (simp add: GenRandomBlocks_def)

lemma length_GenRandomBits [simp]: "length (fst (GenRandomBits orc sd n)) = n"
  by (simp add: GenRandomBits_def)

lemma length_GenRandomBitMatrix [simp]:
  "length (fst (GenRandomBitMatrix orc sd r c)) = r * c div 8"
  by (simp add: GenRandomBitMatrix_def)

lemma length_empBitMatrixTranspose [simp]:
  "length (empBitMatrixTranspose M r c) = r * c div 8"
  by (simp add: empBitMatrixTranspose_def)

lemma length_store_bytes:
  "off + length xs \<le> length buf \<Longrightarrow> length (store_bytes buf off xs) = length buf"
  by (simp add: store_bytes_def)

lemma nth_store_bytes:
  "off + length xs \<le> length buf \<Longrightarrow> i < length buf \<Longrightarrow>
   store_bytes buf off xs ! i = (if off \<le> i \<and> i < off + length xs then xs ! (i - off) else buf ! i)"
  by (auto simp add: store_bytes_def nth_append)

lemma bit_transpose:
  assumes "i < N" "c < 128"
  shows "bit (empBitMatrixTranspose M N 128 ! (i * 16 + c div 8)) (c mod 8) = matrix_bit M N i c"
proof -
  have lt: "i * 16 + c div 8 < N * 128 div 8" using assms by simp
  show ?thesis
    using assms lt
    by (simp add: empBitMatrixTranspose_def bit_bits_to_byte)
qed

lemma row_of_transpose:
  assumes "i < N"
  shows "FromDenseBits (empBitMatrixTranspose M N 128) (i * 128 div 8) BASE_LEN (BASE_LEN div 128)
         = [bits_to_block (\<lambda>b. matrix_bit M N i b)]"
proof -
  have a: "i * 128 div 8 = i * 16" by simp
  have "bits_to_block (\<lambda>b. bit (empBitMatrixTranspose M N 128 ! (i * 16 + b div 8)) (b mod 8))
        = bits_to_block (\<lambda>b. matrix_bit M N i b)"
    by (rule bits_to_block_cong) (simp add: bit_transpose [OF assms])
  then show ?thesis
    by (simp add: FromDenseBits_def BASE_LEN_def a)
qed

section \<open>The loops\<close>

lemma exec_Receive_columns:
  "exec (Receive_columns orc T vec_K0 vec_K1 R N C j seed cont) p n =
   exec cont p
     (n\<lparr>inbox := (inbox n)(peer p := inbox n (peer p) @
                      concat (map (\<lambda>j. inner_C0 orc T vec_K0 N j @ inner_C1 orc T vec_K1 R N j) [j..<C])),
        wire := wire n @
                concat (map (\<lambda>j. [Sent p (inner_C0 orc T vec_K0 N j),
                                   Sent p (inner_C1 orc T vec_K1 R N j)]) [j..<C])\<rparr>)"
proof (induction "C - j" arbitrary: j seed n)
  case 0
  then have "\<not> j < C" by simp
  then show ?case
    by (subst Receive_columns.simps) simp
next
  case (Suc d)
  then have lt: "j < C" and d: "d = C - (j + 1)" by simp_all
  have upt: "[j..<C] = j # [j + 1..<C]" using lt by (simp add: upt_conv_Cons)
  let ?n1 = "deliver p (inner_C1 orc T vec_K1 R N j) (deliver p (inner_C0 orc T vec_K0 N j) n)"
  define seed' where "seed' = snd (GenRandomBlocks orc (ReSeed orc (vec_K1 ! j) 0) (N div 128))"
  have step:
    "exec (Receive_columns orc T vec_K0 vec_K1 R N C j seed cont) p n =
     exec (Receive_columns orc T vec_K0 vec_K1 R N C (j + 1) seed' cont) p ?n1"
    by (subst Receive_columns.simps)
       (simp add: lt Let_def inner_C0_def inner_C1_def T_column_def pad_of_def seed'_def)
  have net: "?n1\<lparr>inbox := (inbox ?n1)(peer p := inbox ?n1 (peer p) @
                      concat (map (\<lambda>j. inner_C0 orc T vec_K0 N j @ inner_C1 orc T vec_K1 R N j) [j + 1..<C])),
        wire := wire ?n1 @
                concat (map (\<lambda>j. [Sent p (inner_C0 orc T vec_K0 N j),
                                   Sent p (inner_C1 orc T vec_K1 R N j)]) [j + 1..<C])\<rparr>
      = n\<lparr>inbox := (inbox n)(peer p := inbox n (peer p) @
                      concat (map (\<lambda>j. inner_C0 orc T vec_K0 N j @ inner_C1 orc T vec_K1 R N j) [j..<C])),
        wire := wire n @
                concat (map (\<lambda>j. [Sent p (inner_C0 orc T vec_K0 N j),
                                   Sent p (inner_C1 orc T vec_K1 R N j)]) [j..<C])\<rparr>"
    by (simp add: upt deliver_def)
  show ?case
    unfolding step Suc.hyps(1) [OF d] net ..
qed

lemma exec_Send_columns:
  assumes len: "\<And>j'. length (c0 j') = N div 128 \<and> length (c1 j') = N div 128"
  shows "inbox n p = concat (map (\<lambda>j. c0 j @ c1 j) [j..<BASE_LEN]) @ rest \<Longrightarrow>
   exec (Send_columns orc vec_K sel N j seed Q cont) p n =
   exec (cont (foldl (Q_store orc vec_K sel N c0 c1) Q [j..<BASE_LEN])) p
        (n\<lparr>inbox := (inbox n)(p := rest)\<rparr>)"
proof (induction "BASE_LEN - j" arbitrary: j seed Q n)
  case 0
  then have nlt: "\<not> j < BASE_LEN" by simp
  then have "inbox n p = rest" using 0 by simp
  then have "n\<lparr>inbox := (inbox n)(p := rest)\<rparr> = n" by auto
  then show ?case
    using nlt by (subst Send_columns.simps) simp
next
  case (Suc d)
  then have lt: "j < BASE_LEN" and d: "d = BASE_LEN - (j + 1)" by simp_all
  have upt: "[j..<BASE_LEN] = j # [j + 1..<BASE_LEN]" using lt by (simp add: upt_conv_Cons)
  let ?tail = "concat (map (\<lambda>j. c0 j @ c1 j) [j + 1..<BASE_LEN]) @ rest"
  have inb: "inbox n p = c0 j @ c1 j @ ?tail"
    using Suc.prems by (simp add: upt)
  let ?n2 = "consume p (N div 128) (consume p (N div 128) n)"
  have inb2: "inbox ?n2 p = ?tail"
    by (simp add: consume_def inb len)
  have n2: "?n2\<lparr>inbox := (inbox ?n2)(p := rest)\<rparr> = n\<lparr>inbox := (inbox n)(p := rest)\<rparr>"
    by (simp add: consume_def)
  define seed' where "seed' = snd (GenRandomBlocks orc (ReSeed orc (vec_K ! j) 0) (N div 128))"
  have step:
    "exec (Send_columns orc vec_K sel N j seed Q cont) p n =
     exec (Send_columns orc vec_K sel N (j + 1) seed' (Q_store orc vec_K sel N c0 c1 Q j) cont) p ?n2"
    by (subst Send_columns.simps)
       (simp add: lt Let_def inb len consume_def Q_store_def pad_of_def seed'_def)
  show ?case
    unfolding step Suc.hyps(1) [OF d inb2] n2 by (simp add: upt)
qed

lemma row_block_bits:
  "i < N \<Longrightarrow> row_block M N BASE_LEN i = [bits_to_block (\<lambda>b. matrix_bit M N i b)]"
  using row_of_transpose [of i N M] by (simp add: row_block_def BASE_LEN_def)

lemma foldl_store_bytes:
  assumes len: "\<And>j. length (col j) = w"
  shows "m * w \<le> length Q \<Longrightarrow>
         length (foldl (\<lambda>Q j. store_bytes Q (j * w) (col j)) Q [0..<m]) = length Q
       \<and> (\<forall>j<m. \<forall>t<w. foldl (\<lambda>Q j. store_bytes Q (j * w) (col j)) Q [0..<m] ! (j * w + t) = col j ! t)"
proof (induction m)
  case 0
  then show ?case by simp
next
  case (Suc m)
  let ?F = "foldl (\<lambda>Q j. store_bytes Q (j * w) (col j)) Q [0..<m]"
  have mw: "m * w + w \<le> length Q" using Suc.prems by simp
  then have IH: "length ?F = length Q"
    "\<And>j t. j < m \<Longrightarrow> t < w \<Longrightarrow> ?F ! (j * w + t) = col j ! t"
    using Suc.IH by simp_all
  have fit: "m * w + length (col m) \<le> length ?F" using mw IH(1) len by simp
  have L: "length (store_bytes ?F (m * w) (col m)) = length Q"
    using length_store_bytes [OF fit] IH(1) by simp
  have N: "store_bytes ?F (m * w) (col m) ! (j * w + t) = col j ! t" if "j < Suc m" "t < w" for j t
  proof (cases "j = m")
    case True
    have "j * w + t < length ?F" using True mw IH(1) that by simp
    then show ?thesis
      using True that by (simp add: nth_store_bytes [OF fit] len)
  next
    case False
    then have jm: "j < m" using that by simp
    then have "Suc j \<le> m" by simp
    then have "Suc j * w \<le> m * w" by (rule mult_le_mono1)
    then have lt: "j * w + t < m * w" using that by simp
    then have "j * w + t < length ?F" using mw IH(1) by simp
    then show ?thesis
      using lt jm that by (simp add: nth_store_bytes [OF fit] IH(2))
  qed
  show ?case
    using L N by simp
qed

lemma Send_rows_eq:
  "i \<le> N \<Longrightarrow> N \<le> INT_MAX \<Longrightarrow> length C0 = N \<Longrightarrow> length C1 = N \<Longrightarrow>
   Send_rows orc Qt S m0 m1 N C i (C0, C1) =
     Some (take i C0 @ map (\<lambda>i. m0 ! i XOR BlocksToBlock orc
                              (FromDenseBits Qt (i * C div 8) BASE_LEN (BASE_LEN div 128))) [i..<N],
           take i C1 @ map (\<lambda>i. m1 ! i XOR BlocksToBlock orc
                              (Block_XOR (FromDenseBits Qt (i * C div 8) BASE_LEN (BASE_LEN div 128)) S))
                      [i..<N])"
proof (induction "N - i" arbitrary: i C0 C1)
  case 0
  then show ?case by (subst Send_rows.simps) simp
next
  case (Suc d)
  then have lt: "i < N" and d: "d = N - (i + 1)" and le: "i + 1 \<le> N" by simp_all
  have ne: "i \<noteq> INT_MAX" using lt Suc.prems(2) by simp
  have upt: "[i..<N] = i # [i + 1..<N]" using lt by (simp add: upt_conv_Cons)
  show ?case
    apply (subst Send_rows.simps)
    apply (simp only: lt ne if_True if_False Let_def fst_conv snd_conv)
    apply (subst Suc.hyps(1) [OF d le Suc.prems(2)])
      apply (simp add: Suc.prems)
     apply (simp add: Suc.prems)
    apply (simp add: upt Suc.prems lt take_Suc_conv_app_nth)
    done
qed


lemma Receive_rows_eq:
  "i \<le> N \<Longrightarrow> N \<le> INT_MAX \<Longrightarrow> length res = N \<Longrightarrow>
   Receive_rows orc Tt sel C0 C1 N C i res =
     Some (take i res @ map (\<lambda>i. (if sel ! i = 0 then C0 ! i else C1 ! i) XOR BlocksToBlock orc
                              (FromDenseBits Tt (i * C div 8) BASE_LEN (BASE_LEN div 128))) [i..<N])"
proof (induction "N - i" arbitrary: i res)
  case 0
  then show ?case by (subst Receive_rows.simps) simp
next
  case (Suc d)
  then have lt: "i < N" and d: "d = N - (i + 1)" and le: "i + 1 \<le> N" by simp_all
  have ne: "i \<noteq> INT_MAX" using lt Suc.prems(2) by simp
  have upt: "[i..<N] = i # [i + 1..<N]" using lt by (simp add: upt_conv_Cons)
  show ?case
    apply (subst Receive_rows.simps)
    apply (simp only: lt ne if_True if_False Let_def)
    apply (subst Suc.hyps(1) [OF d le Suc.prems(2)])
     apply (simp add: Suc.prems)
    apply (simp add: upt Suc.prems lt take_Suc_conv_app_nth)
    done
qed

section \<open>The correlation between \<open>Q\<close> and \<open>T\<close>\<close>

lemma nth_ideal_OT:
  "j < LEN \<Longrightarrow> ideal_OT K0 K1 sel LEN ! j = (if sel ! j = 0 then K0 ! j else K1 ! j)"
  by (simp add: ideal_OT_def)

lemma length_pad_of [simp]: "length (pad_of orc key n) = n"
  by (simp add: pad_of_def)

lemma length_T_column [simp]: "length (T_column T N j) = N div 128"
  by (simp add: T_column_def)

lemma length_inner_C0 [simp]: "length (inner_C0 orc T K0 N j) = N div 128"
  by (simp add: inner_C0_def)

lemma length_inner_C1 [simp]:
  "length R = N div 128 \<Longrightarrow> length (inner_C1 orc T K1 R N j) = N div 128"
  by (simp add: inner_C1_def)

lemma xor_pad_cancel: "(a XOR p) XOR p = (a :: block)"
  by (simp add: xor.assoc)

lemma plaintext_nth:
  assumes "j < BASE_LEN" "k < N div 128" "length R = N div 128"
  shows "(if sel ! j = 0
          then Block_XOR (inner_C0 orc T K0 N j)
                 (pad_of orc (ideal_OT K0 K1 sel BASE_LEN ! j) (N div 128))
          else Block_XOR (inner_C1 orc T K1 R N j)
                 (pad_of orc (ideal_OT K0 K1 sel BASE_LEN ! j) (N div 128))) ! k
         = T_column T N j ! k XOR (if sel ! j = 0 then 0 else R ! k)"
  using assms
  by (simp add: nth_ideal_OT inner_C0_def inner_C1_def nth_Block_XOR xor_pad_cancel)

lemma div128_less:
  assumes "N mod 128 = 0" "i < N"
  shows "i div 128 < N div (128::nat)"
proof -
  have "N div 128 * 128 = N" using assms(1) by (simp add: mod_0_imp_dvd)
  then have "i < N div 128 * 128" using assms(2) by simp
  then show ?thesis by (rule less_mult_imp_div_less)
qed

lemma dvd8: "N mod 128 = 0 \<Longrightarrow> (8::nat) dvd N"
proof -
  assume "N mod 128 = 0"
  then have "128 dvd N" by (simp add: mod_0_imp_dvd)
  moreover have "(8::nat) dvd 128" by simp
  ultimately show ?thesis by (rule dvd_trans [rotated])
qed

lemma div8_less:
  assumes "N mod 128 = 0" "i < N"
  shows "i div 8 < N div (8::nat)"
proof -
  have "N div 8 * 8 = N" using dvd8 [OF assms(1)] by simp
  then have "i < N div 8 * 8" using assms(2) by simp
  then show ?thesis by (rule less_mult_imp_div_less)
qed

lemma col_offset:
  assumes "N mod 128 = 0"
  shows "j * N div 8 = j * (N div (8::nat))"
  using dvd8 [OF assms] by (simp add: div_mult_swap)

lemma bit_T_column:
  assumes "N mod 128 = 0" "i < N"
  shows "bit (T_column T N j ! (i div 128)) (i mod 128) = matrix_bit T N i j"
  using div128_less [OF assms]
  by (simp add: T_column_def FromDenseBits_def bit_bits_to_block matrix_bit_def)

lemma bit_Receiver_R:
  assumes "N mod 128 = 0" "i < N"
  shows "bit (Receiver_R r N ! (i div 128)) (i mod 128) = (r ! i \<noteq> 0)"
  using div128_less [OF assms]
  by (simp add: Receiver_R_def FromSparseBits_def bit_bits_to_block)

lemma Q_store_eq:
  assumes "N mod 128 = 0"
  shows "Q_store orc K sel N c0 c1 =
         (\<lambda>Q j. store_bytes Q (j * (N div 8))
                  (ToDenseBits (if sel ! j = 0
                                then Block_XOR (c0 j) (pad_of orc (K ! j) (N div 128))
                                else Block_XOR (c1 j) (pad_of orc (K ! j) (N div 128)))
                               (N div 128) N))"
  by (intro ext) (simp add: Q_store_def col_offset [OF assms])

lemma bit_ToDenseBits:
  assumes "N mod 128 = 0" "i < N"
  shows "bit (ToDenseBits bs n N ! (i div 8)) (i mod 8) = bit (bs ! (i div 128)) (i mod 128)"
  using div8_less [OF assms]
  by (simp add: ToDenseBits_def bit_bits_to_byte)

lemma matrix_bit_Sender_Q:
  assumes N: "N mod 128 = 0" and i: "i < N" and j: "j < BASE_LEN"
  shows "matrix_bit (Sender_Q orc seedS seedR r N) N i j =
         (matrix_bit (Receiver_T orc seedR N) N i j \<noteq> (Sender_s orc seedS ! j \<noteq> 0 \<and> r ! i \<noteq> 0))"
proof -
  let ?K = "ideal_OT (Receiver_K0 orc seedR N) (Receiver_K1 orc seedR N) (Sender_s orc seedS) BASE_LEN"
  let ?sel = "Sender_s orc seedS"
  let ?T = "Receiver_T orc seedR N"
  let ?R = "Receiver_R r N"
  let ?c0 = "inner_C0 orc ?T (Receiver_K0 orc seedR N) N"
  let ?c1 = "inner_C1 orc ?T (Receiver_K1 orc seedR N) ?R N"
  let ?pt = "\<lambda>j. (if ?sel ! j = 0
                  then Block_XOR (?c0 j) (pad_of orc (?K ! j) (N div 128))
                  else Block_XOR (?c1 j) (pad_of orc (?K ! j) (N div 128)))"
  let ?col = "\<lambda>j. ToDenseBits (?pt j) (N div 128) N"
  let ?Q0 = "replicate (N div 8 * BASE_LEN) (0::byte)"
  have lenR: "length ?R = N div 128" by (simp add: Receiver_R_def)
  have Q: "Sender_Q orc seedS seedR r N =
           foldl (\<lambda>Q j. store_bytes Q (j * (N div 8)) (?col j)) ?Q0 [0..<BASE_LEN]"
    by (simp add: Sender_Q_def Q_store_eq [OF N])
  have len: "\<And>j. length (?col j) = N div 8" by simp
  have fit: "BASE_LEN * (N div 8) \<le> length ?Q0" by simp
  have t: "i div 8 < N div 8" by (rule div8_less [OF N i])
  have "Sender_Q orc seedS seedR r N ! (j * (N div 8) + i div 8) = ?col j ! (i div 8)"
    unfolding Q using foldl_store_bytes [of ?col "N div 8" BASE_LEN ?Q0, OF len fit] j t by blast
  then have "matrix_bit (Sender_Q orc seedS seedR r N) N i j = bit (?col j ! (i div 8)) (i mod 8)"
    by (simp add: matrix_bit_def col_offset [OF N])
  also have "\<dots> = bit (?pt j ! (i div 128)) (i mod 128)"
    by (rule bit_ToDenseBits [OF N i])
  also have "?pt j ! (i div 128) = T_column ?T N j ! (i div 128) XOR (if ?sel ! j = 0 then 0 else ?R ! (i div 128))"
    by (rule plaintext_nth [OF j div128_less [OF N i] lenR])
  also have "bit \<dots> (i mod 128) = (matrix_bit ?T N i j \<noteq> (?sel ! j \<noteq> 0 \<and> r ! i \<noteq> 0))"
    by (simp add: bit_xor_iff bit_T_column [OF N i] bit_Receiver_R [OF N i])
  finally show ?thesis .
qed

lemma Sender_S_bits: "Sender_S orc seedS = [bits_to_block (\<lambda>b. Sender_s orc seedS ! b \<noteq> 0)]"
  by (simp add: Sender_S_def FromSparseBits_def BASE_LEN_def)

lemma row_block_Sender_Q:
  assumes N: "N mod 128 = 0" and i: "i < N"
  shows "row_block (Sender_Q orc seedS seedR r N) N BASE_LEN i =
         [bits_to_block (\<lambda>b. matrix_bit (Receiver_T orc seedR N) N i b \<noteq>
                               (Sender_s orc seedS ! b \<noteq> 0 \<and> r ! i \<noteq> 0))]"
proof -
  have "bits_to_block (\<lambda>b. matrix_bit (Sender_Q orc seedS seedR r N) N i b) =
        bits_to_block (\<lambda>b. matrix_bit (Receiver_T orc seedR N) N i b \<noteq>
                               (Sender_s orc seedS ! b \<noteq> 0 \<and> r ! i \<noteq> 0))"
    by (rule bits_to_block_cong) (simp add: matrix_bit_Sender_Q [OF N i] BASE_LEN_def)
  then show ?thesis
    by (simp add: row_block_bits [OF i])
qed

lemma row_Q_zero:
  assumes "N mod 128 = 0" "i < N" "r ! i = 0"
  shows "row_block (Sender_Q orc seedS seedR r N) N BASE_LEN i =
         row_block (Receiver_T orc seedR N) N BASE_LEN i"
proof -
  note a = row_block_Sender_Q [OF assms(1,2), of orc seedS seedR r]
  note b = row_block_bits [OF assms(2), of "Receiver_T orc seedR N"]
  show ?thesis unfolding a b using assms(3) by simp
qed

lemma row_Q_one:
  assumes "N mod 128 = 0" "i < N" "r ! i \<noteq> 0"
  shows "Block_XOR (row_block (Sender_Q orc seedS seedR r N) N BASE_LEN i) (Sender_S orc seedS) =
         row_block (Receiver_T orc seedR N) N BASE_LEN i"
proof -
  have x: "bits_to_block (\<lambda>b. matrix_bit (Receiver_T orc seedR N) N i b \<noteq> (Sender_s orc seedS ! b \<noteq> 0))
          XOR bits_to_block (\<lambda>b. Sender_s orc seedS ! b \<noteq> 0)
        = bits_to_block (\<lambda>b. matrix_bit (Receiver_T orc seedR N) N i b)"
    by (rule bit_word_eqI) (auto simp add: bit_xor_iff bit_bits_to_block)
  note a = row_block_Sender_Q [OF assms(1,2), of orc seedS seedR r]
  note b = row_block_bits [OF assms(2), of "Receiver_T orc seedR N"]
  from x show ?thesis
    unfolding a b Sender_S_bits using assms(3) by (simp add: Block_XOR_def)
qed

lemma exec_Send_phase1_blocked:
  "ot_offer n = None \<Longrightarrow>
   exec (Send_phase1 orc sd pp R C cont) p n = (Blocked (Send_phase1 orc sd pp R C cont), n)"
  by (simp add: Send_phase1_def Let_def)

lemma exec_Send_phase1:
  assumes len: "\<And>j'. length (c0 j') = N div 128 \<and> length (c1 j') = N div 128"
    and ot: "ot_offer n = Some (K0, K1)"
    and inb: "inbox n p = concat (map (\<lambda>j. c0 j @ c1 j) [0..<BASE_LEN]) @ rest"
  shows "exec (Send_phase1 orc sd pp N C cont) p n =
         exec (cont (fst (GenRandomBits orc sd BASE_LEN))
                 (foldl (Q_store orc (ideal_OT K0 K1 (fst (GenRandomBits orc sd BASE_LEN)) BASE_LEN)
                           (fst (GenRandomBits orc sd BASE_LEN)) N c0 c1)
                        (replicate (N div 8 * C) 0) [0..<BASE_LEN]))
              p (n\<lparr>ot_offer := None, inbox := (inbox n)(p := rest)\<rparr>)"
proof -
  let ?n = "n\<lparr>ot_offer := None\<rparr>"
  have inb': "inbox ?n p = concat (map (\<lambda>j. c0 j @ c1 j) [0..<BASE_LEN]) @ rest"
    using inb by simp
  show ?thesis
    unfolding Send_phase1_def Let_def
    by (simp add: ot exec_Send_columns [of c0 N c1, OF len inb'])
qed

section \<open>The paired runs\<close>

lemma party_fun_eq: "(f = g) \<longleftrightarrow> (f Sender = g Sender \<and> f Receiver = g Receiver)"
proof
  assume "f Sender = g Sender \<and> f Receiver = g Receiver"
  then have "f p = g p" for p by (cases p) simp_all
  then show "f = g" by (rule ext)
qed simp

lemma INT_MAX_fits: "N \<le> INT_MAX \<Longrightarrow> \<not> vector_max_size sizeof_block < N"
  by (simp add: INT_MAX_def vector_max_size_block)

lemma exec_Receive:
  assumes "N mod 128 = 0" and "\<not> vector_max_size sizeof_block < N"
  shows "exec (Receive orc seedR pp r N) Receiver net0 =
         exec (Receive_tail orc seedR r N) Receiver (net_after_columns orc seedR r N)"
  unfolding Receive_def Let_def
  apply (simp add: assms(2) CheckParameters_base [OF assms(1)] exec_Receive_columns)
  apply (simp add: net0_def net_after_columns_def columns_in_flight_def column_events_def
      Receiver_T_def Receiver_K0_def Receiver_K1_def Receiver_R_def Receive_tail_def)
  done


lemma length_outer_C0 [simp]: "length (outer_C0 orc Q m0 N) = N"
  by (simp add: outer_C0_def)

lemma length_outer_C1 [simp]: "length (outer_C1 orc Q S m1 N) = N"
  by (simp add: outer_C1_def)

lemma Send_rows_outer:
  "N \<le> INT_MAX \<Longrightarrow>
   Send_rows orc (empBitMatrixTranspose Q N BASE_LEN) S m0 m1 N BASE_LEN 0
     (replicate N 0, replicate N 0) = Some (outer_C0 orc Q m0 N, outer_C1 orc Q S m1 N)"
  by (simp add: Send_rows_eq outer_C0_def outer_C1_def row_block_def)

lemma inbox_net_after_columns:
  "inbox (net_after_columns orc seedR r N) Sender =
   concat (map (\<lambda>j. inner_C0 orc (Receiver_T orc seedR N) (Receiver_K0 orc seedR N) N j @
                       inner_C1 orc (Receiver_T orc seedR N) (Receiver_K1 orc seedR N)
                         (Receiver_R r N) N j)
                 [0..<BASE_LEN]) @ []"
  by (simp add: net_after_columns_def columns_in_flight_def)

lemma length_Receiver_R [simp]: "length (Receiver_R r N) = N div 128"
  by (simp add: Receiver_R_def)

lemma exec_Send_phase1_run:
  "exec (Send_phase1 orc seedS pp N BASE_LEN cont) Sender (net_after_columns orc seedR r N) =
   exec (cont (Sender_s orc seedS) (Sender_Q orc seedS seedR r N)) Sender
     ((net_after_columns orc seedR r N)\<lparr>ot_offer := None,
         inbox := (inbox (net_after_columns orc seedR r N))(Sender := [])\<rparr>)"
proof -
  have len: "\<And>j'. length (inner_C0 orc (Receiver_T orc seedR N) (Receiver_K0 orc seedR N) N j') = N div 128
               \<and> length (inner_C1 orc (Receiver_T orc seedR N) (Receiver_K1 orc seedR N)
                           (Receiver_R r N) N j') = N div 128"
    by simp
  have ot: "ot_offer (net_after_columns orc seedR r N) =
              Some (Receiver_K0 orc seedR N, Receiver_K1 orc seedR N)"
    by (simp add: net_after_columns_def)
  show ?thesis
    unfolding exec_Send_phase1 [OF len ot inbox_net_after_columns] Sender_Q_def Sender_s_def ..
qed

lemma net_after_phase1_eq:
  "(net_after_columns orc seedR r N)\<lparr>ot_offer := None,
         inbox := (inbox (net_after_columns orc seedR r N))(Sender := [])\<rparr>
   = net_after_phase1 orc seedR r N"
  by (simp add: net_after_columns_def net_after_phase1_def party_fun_eq)

lemma exec_Send_run:
  assumes "N mod 128 = 0" and "N \<le> INT_MAX"
  shows "exec (Send orc seedS pp m0 m1 N) Sender (net_after_columns orc seedR r N) =
         (Finished (),
          deliver Sender (outer_C1 orc (Sender_Q orc seedS seedR r N) (Sender_S orc seedS) m1 N)
            (deliver Sender (outer_C0 orc (Sender_Q orc seedS seedR r N) m0 N)
               (net_after_phase1 orc seedR r N)))"
  unfolding Send_def Let_def
  by (simp add: CheckParameters_base [OF assms(1)] exec_Send_phase1_run net_after_phase1_eq
        Send_rows_outer [OF assms(2)] Sender_S_def)


lemma exec_Send_blocked:
  assumes "N mod 128 = 0"
  shows "exec (Send orc seedS pp m0 m1 N) Sender net0 = (Blocked (Send orc seedS pp m0 m1 N), net0)"
  unfolding Send_def Let_def
  by (simp add: CheckParameters_base [OF assms] exec_Send_phase1_blocked net0_def)

lemma exec_Receive_tail:
  assumes "length C0 = N" "length C1 = N" "inbox n Receiver = C0 @ C1 @ rest" "N \<le> INT_MAX"
  shows "exec (Receive_tail orc seedR r N) Receiver n =
         (Finished (map (\<lambda>i. (if r ! i = 0 then C0 ! i else C1 ! i) XOR
                             BlocksToBlock orc (row_block (Receiver_T orc seedR N) N BASE_LEN i))
                        [0..<N]),
          n\<lparr>inbox := (inbox n)(Receiver := rest)\<rparr>)"
  using assms
  by (simp add: Receive_tail_def consume_def Receive_rows_eq row_block_def)

lemma exec_Receive_tail_blocked:
  assumes "0 < N" "inbox n Receiver = []"
  shows "exec (Receive_tail orc seedR r N) Receiver n = (Blocked (Receive_tail orc seedR r N), n)"
  using assms by (simp add: Receive_tail_def)

lemma unmask_rows:
  assumes N: "N mod 128 = 0"
  shows "map (\<lambda>i. (if r ! i = 0 then outer_C0 orc (Sender_Q orc seedS seedR r N) m0 N ! i
                   else outer_C1 orc (Sender_Q orc seedS seedR r N) (Sender_S orc seedS) m1 N ! i) XOR
                  BlocksToBlock orc (row_block (Receiver_T orc seedR N) N BASE_LEN i)) [0..<N]
         = map (\<lambda>i. if r ! i = 0 then m0 ! i else m1 ! i) [0..<N]"
proof (rule map_cong [OF refl])
  fix i assume "i \<in> set [0..<N]"
  then have i: "i < N" by simp
  show "(if r ! i = 0 then outer_C0 orc (Sender_Q orc seedS seedR r N) m0 N ! i
                   else outer_C1 orc (Sender_Q orc seedS seedR r N) (Sender_S orc seedS) m1 N ! i) XOR
                  BlocksToBlock orc (row_block (Receiver_T orc seedR N) N BASE_LEN i)
        = (if r ! i = 0 then m0 ! i else m1 ! i)"
  proof (cases "r ! i = 0")
    case True
    then show ?thesis
      using i by (simp add: outer_C0_def row_Q_zero [OF N i True] xor_pad_cancel)
  next
    case False
    then show ?thesis
      using i by (simp add: outer_C1_def row_Q_one [OF N i False] xor_pad_cancel)
  qed
qed

lemma paired_Send_Receive:
  assumes N: "N mod 128 = 0" and small: "N \<le> INT_MAX"
  shows "paired (Suc (Suc fuel)) (Send orc seedS pp m0 m1 N) (Receive orc seedR pp r N) =
         Some (Finished (), Finished (map (\<lambda>i. if r ! i = 0 then m0 ! i else m1 ! i) [0..<N]),
               final_net orc seedS seedR r m0 m1 N)"
proof -
  let ?S = "Send orc seedS pp m0 m1 N"
  let ?R = "Receive orc seedR pp r N"
  let ?tail = "Receive_tail orc seedR r N :: ('a, block list) proc"
  let ?n1 = "net_after_columns orc seedR r N"
  let ?Q = "Sender_Q orc seedS seedR r N"
  let ?oc0 = "outer_C0 orc ?Q m0 N"
  let ?oc1 = "outer_C1 orc ?Q (Sender_S orc seedS) m1 N"
  let ?n2 = "deliver Sender ?oc1 (deliver Sender ?oc0 (net_after_phase1 orc seedR r N))"
  let ?res = "map (\<lambda>i. if r ! i = 0 then m0 ! i else m1 ! i) [0..<N]"
  note fits = INT_MAX_fits [OF small]
  have inb1: "inbox ?n1 Receiver = []"
    by (simp add: net_after_columns_def)
  have inb2: "inbox ?n2 Receiver = ?oc0 @ ?oc1 @ []"
    by (simp add: deliver_def net_after_phase1_def)
  have fin: "?n2\<lparr>inbox := (inbox ?n2)(Receiver := [])\<rparr> = final_net orc seedS seedR r m0 m1 N"
    by (simp add: deliver_def net_after_phase1_def final_net_def party_fun_eq)
  have tail2: "exec ?tail Receiver ?n2 = (Finished ?res, final_net orc seedS seedR r m0 m1 N)"
    unfolding exec_Receive_tail [OF length_outer_C0 length_outer_C1 inb2 small] fin unmask_rows [OF N] ..
  show ?thesis
  proof (cases "N = 0")
    case False
    then have pos: "0 < N" by simp
    have r1: "exec ?R Receiver net0 = (Blocked ?tail, ?n1)"
      by (simp add: exec_Receive [OF N fits] exec_Receive_tail_blocked [OF pos inb1])
    show ?thesis
      by (simp add: paired_def exec_Send_blocked [OF N] r1 exec_Send_run [OF N small] tail2)
  next
    case True
    have n2: "?n2 = final_net orc seedS seedR r m0 m1 N"
      using True by (simp add: deliver_def net_after_phase1_def final_net_def party_fun_eq
          outer_C0_def outer_C1_def)
    have inb1': "inbox ?n1 Receiver = replicate N 0 @ replicate N 0 @ []"
      using True inb1 by simp
    have n1: "?n1\<lparr>inbox := (inbox ?n1)(Receiver := [])\<rparr> = ?n1"
      by (simp add: net_after_columns_def party_fun_eq)
    have e: "exec ?tail Receiver ?n1 =
             (Finished (map (\<lambda>i. (if r ! i = 0 then replicate N 0 ! i else replicate N 0 ! i) XOR
                             BlocksToBlock orc (row_block (Receiver_T orc seedR N) N BASE_LEN i))
                        [0..<N]),
              ?n1\<lparr>inbox := (inbox ?n1)(Receiver := [])\<rparr>)"
      by (rule exec_Receive_tail [OF length_replicate length_replicate inb1' small])
    have m: "map (\<lambda>i. (if r ! i = 0 then replicate N 0 ! i else replicate N 0 ! i) XOR
                             BlocksToBlock orc (row_block (Receiver_T orc seedR N) N BASE_LEN i))
                        [0..<N] = ?res"
      using True by simp
    have r1: "exec ?R Receiver net0 = (Finished ?res, ?n1)"
      unfolding exec_Receive [OF N fits] e m n1 ..
    show ?thesis
      by (simp add: paired_def exec_Send_blocked [OF N] r1 exec_Send_run [OF N small] n2)
  qed
qed



lemma exec_OnesidedSend_rows:
  "N \<le> INT_MAX \<Longrightarrow>
   exec (OnesidedSend_rows orc (empBitMatrixTranspose Q N BASE_LEN) S m N BASE_LEN i cont) p n =
   exec cont p
     (n\<lparr>inbox := (inbox n)(peer p := inbox n (peer p) @ map (onesided_C orc Q S m N) [i..<N]),
        wire := wire n @ map (\<lambda>i. Sent p [onesided_C orc Q S m N i]) [i..<N]\<rparr>)"
proof (induction "N - i" arbitrary: i n)
  case 0
  then have "\<not> i < N" by simp
  then show ?case
    by (subst OnesidedSend_rows.simps) simp
next
  case (Suc d)
  then have lt: "i < N" and d: "d = N - (i + 1)" by simp_all
  have ne: "i \<noteq> INT_MAX" using lt Suc.prems by simp
  have upt: "[i..<N] = i # [i + 1..<N]" using lt by (simp add: upt_conv_Cons)
  let ?n1 = "deliver p [onesided_C orc Q S m N i] n"
  have step:
    "exec (OnesidedSend_rows orc (empBitMatrixTranspose Q N BASE_LEN) S m N BASE_LEN i cont) p n =
     exec (OnesidedSend_rows orc (empBitMatrixTranspose Q N BASE_LEN) S m N BASE_LEN (i + 1) cont) p ?n1"
    by (subst OnesidedSend_rows.simps) (simp add: lt ne Let_def onesided_C_def row_block_def)
  have net: "?n1\<lparr>inbox := (inbox ?n1)(peer p := inbox ?n1 (peer p) @ map (onesided_C orc Q S m N) [i + 1..<N]),
                 wire := wire ?n1 @ map (\<lambda>i. Sent p [onesided_C orc Q S m N i]) [i + 1..<N]\<rparr>
           = n\<lparr>inbox := (inbox n)(peer p := inbox n (peer p) @ map (onesided_C orc Q S m N) [i..<N]),
                 wire := wire n @ map (\<lambda>i. Sent p [onesided_C orc Q S m N i]) [i..<N]\<rparr>"
    by (simp add: upt deliver_def)
  show ?case
    unfolding step Suc.hyps(1) [OF d Suc.prems] net ..
qed


lemma exec_OnesidedReceive_rows:
  "N \<le> INT_MAX \<Longrightarrow> inbox n p = map oc [i..<N] @ rest \<Longrightarrow>
   exec (OnesidedReceive_rows orc (empBitMatrixTranspose T N BASE_LEN) sel N BASE_LEN i res) p n =
   (Finished (res @ map (\<lambda>i. oc i XOR BlocksToBlock orc (row_block T N BASE_LEN i))
                        (filter (\<lambda>i. sel ! i = 1) [i..<N])),
    n\<lparr>inbox := (inbox n)(p := rest)\<rparr>)"
proof (induction "N - i" arbitrary: i n res)
  case 0
  then have nlt: "\<not> i < N" by simp
  then have "inbox n p = rest" using 0 by simp
  then have "n\<lparr>inbox := (inbox n)(p := rest)\<rparr> = n" by auto
  then show ?case
    using nlt by (subst OnesidedReceive_rows.simps) simp
next
  case (Suc d)
  then have lt: "i < N" and d: "d = N - (i + 1)" by simp_all
  have ne: "i \<noteq> INT_MAX" using lt Suc.prems(1) by simp
  have upt: "[i..<N] = i # [i + 1..<N]" using lt by (simp add: upt_conv_Cons)
  have inb: "inbox n p = oc i # map oc [i + 1..<N] @ rest"
    using Suc.prems by (simp add: upt)
  let ?n1 = "consume p 1 n"
  let ?res1 = "if sel ! i = 1 then res @ [oc i XOR BlocksToBlock orc (row_block T N BASE_LEN i)] else res"
  have inb1: "inbox ?n1 p = map oc [i + 1..<N] @ rest"
    by (simp add: consume_def inb)
  have n1: "?n1\<lparr>inbox := (inbox ?n1)(p := rest)\<rparr> = n\<lparr>inbox := (inbox n)(p := rest)\<rparr>"
    by (simp add: consume_def)
  have step:
    "exec (OnesidedReceive_rows orc (empBitMatrixTranspose T N BASE_LEN) sel N BASE_LEN i res) p n =
     exec (OnesidedReceive_rows orc (empBitMatrixTranspose T N BASE_LEN) sel N BASE_LEN (i + 1) ?res1) p ?n1"
    by (subst OnesidedReceive_rows.simps) (simp add: lt ne Let_def inb row_block_def)
  show ?case
    unfolding step Suc.hyps(1) [OF d Suc.prems(1) inb1] n1 by (simp add: upt)
qed


lemma exec_OnesidedReceive_rows_blocked:
  assumes "0 < N" "inbox n p = []"
  shows "exec (OnesidedReceive_rows orc Tt sel N C 0 res :: ('b, block list) proc) p n =
         (Blocked (OnesidedReceive_rows orc Tt sel N C 0 res), n)"
proof -
  have "\<exists>k. (OnesidedReceive_rows orc Tt sel N C 0 res :: ('b, block list) proc) = ReceiveBlock k"
    by (subst OnesidedReceive_rows.simps) (simp add: assms(1))
  then obtain k
    where e: "(OnesidedReceive_rows orc Tt sel N C 0 res :: ('b, block list) proc) = ReceiveBlock k" ..
  show ?thesis
    unfolding e using assms(2) by simp
qed

lemma exec_OnesidedReceive:
  assumes "N mod 128 = 0"
  shows "exec (OnesidedReceive orc seedR pp r N) Receiver net0 =
         exec (OnesidedReceive_tail orc seedR r N) Receiver (net_after_columns orc seedR r N)"
  unfolding OnesidedReceive_def Let_def
  apply (simp add: CheckParameters_base [OF assms] exec_Receive_columns)
  apply (simp add: net0_def net_after_columns_def columns_in_flight_def column_events_def
        Receiver_T_def Receiver_K0_def Receiver_K1_def Receiver_R_def OnesidedReceive_tail_def)
  done

lemma exec_OnesidedSend_blocked:
  assumes "N mod 128 = 0"
  shows "exec (OnesidedSend orc seedS pp m N) Sender net0 = (Blocked (OnesidedSend orc seedS pp m N), net0)"
  unfolding OnesidedSend_def Let_def
  by (simp add: CheckParameters_base [OF assms] exec_Send_phase1_blocked net0_def)

lemma exec_OnesidedSend_run:
  assumes "N mod 128 = 0" and small: "N \<le> INT_MAX"
  shows "exec (OnesidedSend orc seedS pp m N) Sender (net_after_columns orc seedR r N) =
         (Finished (),
          (net_after_phase1 orc seedR r N)
            \<lparr>inbox := (\<lambda>_. [])(Receiver :=
                 map (onesided_C orc (Sender_Q orc seedS seedR r N) (Sender_S orc seedS) m N) [0..<N]),
             wire := wire (net_after_phase1 orc seedR r N) @
                 map (\<lambda>i. Sent Sender [onesided_C orc (Sender_Q orc seedS seedR r N)
                                          (Sender_S orc seedS) m N i]) [0..<N]\<rparr>)"
  unfolding OnesidedSend_def Let_def
  by (simp add: CheckParameters_base [OF assms(1)] exec_Send_phase1_run net_after_phase1_eq
        exec_OnesidedSend_rows [OF small] Sender_S_def)
     (simp add: net_after_phase1_def party_fun_eq)


lemma onesided_unmask:
  assumes N: "N mod 128 = 0"
  shows "map (\<lambda>i. onesided_C orc (Sender_Q orc seedS seedR r N) (Sender_S orc seedS) m N i XOR
                  BlocksToBlock orc (row_block (Receiver_T orc seedR N) N BASE_LEN i))
             (filter (\<lambda>i. r ! i = 1) [0..<N])
         = map (\<lambda>i. m ! i) (filter (\<lambda>i. r ! i = 1) [0..<N])"
proof (rule map_cong [OF refl])
  fix i assume "i \<in> set (filter (\<lambda>i. r ! i = 1) [0..<N])"
  then have i: "i < N" and ri: "r ! i \<noteq> 0" by simp_all
  show "onesided_C orc (Sender_Q orc seedS seedR r N) (Sender_S orc seedS) m N i XOR
                  BlocksToBlock orc (row_block (Receiver_T orc seedR N) N BASE_LEN i) = m ! i"
    by (simp add: onesided_C_def row_Q_one [OF N i ri] xor_pad_cancel)
qed

lemma paired_OnesidedSend_OnesidedReceive:
  assumes N: "N mod 128 = 0" and small: "N \<le> INT_MAX"
  shows "paired (Suc (Suc fuel)) (OnesidedSend orc seedS pp m N) (OnesidedReceive orc seedR pp r N) =
         Some (Finished (), Finished (map (\<lambda>i. m ! i) (filter (\<lambda>i. r ! i = 1) [0..<N])),
               onesided_final_net orc seedS seedR r m N)"
proof -
  let ?S = "OnesidedSend orc seedS pp m N"
  let ?R = "OnesidedReceive orc seedR pp r N"
  let ?tail = "OnesidedReceive_tail orc seedR r N :: ('a, block list) proc"
  let ?n1 = "net_after_columns orc seedR r N"
  let ?Q = "Sender_Q orc seedS seedR r N"
  let ?oc = "onesided_C orc ?Q (Sender_S orc seedS) m N"
  let ?n2 = "(net_after_phase1 orc seedR r N)
            \<lparr>inbox := (\<lambda>_. [])(Receiver := map ?oc [0..<N]),
             wire := wire (net_after_phase1 orc seedR r N) @ map (\<lambda>i. Sent Sender [?oc i]) [0..<N]\<rparr>"
  let ?res = "map (\<lambda>i. m ! i) (filter (\<lambda>i. r ! i = 1) [0..<N])"
  have inb1: "inbox ?n1 Receiver = []"
    by (simp add: net_after_columns_def)
  have inb2: "inbox ?n2 Receiver = map ?oc [0..<N] @ []"
    by simp
  have fin: "?n2\<lparr>inbox := (inbox ?n2)(Receiver := [])\<rparr> = onesided_final_net orc seedS seedR r m N"
    by (simp add: net_after_phase1_def onesided_final_net_def party_fun_eq)
  have tail2: "exec ?tail Receiver ?n2 = (Finished ?res, onesided_final_net orc seedS seedR r m N)"
    unfolding OnesidedReceive_tail_def exec_OnesidedReceive_rows [OF small inb2] fin
    by (simp add: onesided_unmask [OF N])
  show ?thesis
  proof (cases "N = 0")
    case False
    then have pos: "0 < N" by simp
    have r1: "exec ?R Receiver net0 = (Blocked ?tail, ?n1)"
      unfolding exec_OnesidedReceive [OF N] OnesidedReceive_tail_def
      by (rule exec_OnesidedReceive_rows_blocked [OF pos inb1])
    show ?thesis
      by (simp add: paired_def exec_OnesidedSend_blocked [OF N] r1 exec_OnesidedSend_run [OF N small] tail2)
  next
    case True
    have n2: "?n2 = onesided_final_net orc seedS seedR r m N"
      using True by (simp add: net_after_phase1_def onesided_final_net_def party_fun_eq)
    have inb1': "inbox ?n1 Receiver = map (\<lambda>_. 0) [0..<N] @ []"
      using True inb1 by simp
    have n1: "?n1\<lparr>inbox := (inbox ?n1)(Receiver := [])\<rparr> = ?n1"
      by (simp add: net_after_columns_def party_fun_eq)
    have e: "exec ?tail Receiver ?n1 =
             (Finished ([] @ map (\<lambda>i. 0 XOR BlocksToBlock orc (row_block (Receiver_T orc seedR N) N BASE_LEN i))
                        (filter (\<lambda>i. r ! i = 1) [0..<N])),
              ?n1\<lparr>inbox := (inbox ?n1)(Receiver := [])\<rparr>)"
      unfolding OnesidedReceive_tail_def
      by (rule exec_OnesidedReceive_rows [OF small inb1'])
    have m: "[] @ map (\<lambda>i. 0 XOR BlocksToBlock orc (row_block (Receiver_T orc seedR N) N BASE_LEN i))
                        (filter (\<lambda>i. r ! i = 1) [0..<N]) = ?res"
      using True by simp
    have r1: "exec ?R Receiver net0 = (Finished ?res, ?n1)"
      unfolding exec_OnesidedReceive [OF N] e m n1 ..
    show ?thesis
      by (simp add: paired_def exec_OnesidedSend_blocked [OF N] r1 exec_OnesidedSend_run [OF N small] n2)
  qed
qed








lemma column_events_zero:
  "column_events orc seedR r 0 = concat (map (\<lambda>j. [Sent Receiver [], Sent Receiver []]) [0..<128])"
  by (simp add: column_events_def inner_C0_def inner_C1_def BASE_LEN_def)






section \<open>Correctness of the extension\<close>







section \<open>The invariant of the column phase\<close>



section \<open>The order of the messages\<close>




section \<open>An extension of length zero\<close>

text \<open>
  C9. \<^verbatim>\<open>CheckParameters(0, 128)\<close> returns normally, and with \<^verbatim>\<open>EXTEND_LEN\<close> = 0 both
  variants run to their end, whatever vectors they are given: the base OT takes place,
  the receiver sends the 128 pairs of columns, each of no block, the sender sends its
  ciphertexts of no block (none at all in the one-sided variant), and \<^verbatim>\<open>Receive\<close> and
  \<^verbatim>\<open>OnesidedReceive\<close> return the empty vector.
\<close>

theorem zero_length_accepted:
  "CheckParameters 0 128 = Inr ()
   \<and> paired (Suc (Suc fuel)) (Send orc seedS pp vec_m0 vec_m1 0)
                             (Receive orc seedR pp vec_selection_bit 0) =
       Some (Finished (), Finished [],
             \<lparr>inbox = (\<lambda>_. []), ot_offer = None,
              wire = BaseOT_transcript #
                     concat (map (\<lambda>j. [Sent Receiver [], Sent Receiver []]) [0..<128]) @
                     [Sent Sender [], Sent Sender []]\<rparr>)
   \<and> paired (Suc (Suc fuel)) (OnesidedSend orc seedS pp vec_m 0)
                             (OnesidedReceive orc seedR pp vec_selection_bit 0) =
       Some (Finished (), Finished [],
             \<lparr>inbox = (\<lambda>_. []), ot_offer = None,
              wire = BaseOT_transcript #
                     concat (map (\<lambda>j. [Sent Receiver [], Sent Receiver []]) [0..<128])\<rparr>)"
proof -
  have z: "(0::nat) mod 128 = 0" by simp
  have small: "(0::nat) \<le> INT_MAX" by simp
  have a: "CheckParameters 0 128 = Inr ()"
    by (simp add: CheckParameters_def)
  have b: "final_net orc seedS seedR vec_selection_bit vec_m0 vec_m1 0 =
           \<lparr>inbox = (\<lambda>_. []), ot_offer = None,
              wire = BaseOT_transcript #
                     concat (map (\<lambda>j. [Sent Receiver [], Sent Receiver []]) [0..<128]) @
                     [Sent Sender [], Sent Sender []]\<rparr>"
    unfolding final_net_def column_events_zero by (simp add: outer_C0_def outer_C1_def)
  have c: "onesided_final_net orc seedS seedR vec_selection_bit vec_m 0 =
           \<lparr>inbox = (\<lambda>_. []), ot_offer = None,
              wire = BaseOT_transcript #
                     concat (map (\<lambda>j. [Sent Receiver [], Sent Receiver []]) [0..<128])\<rparr>"
    unfolding onesided_final_net_def column_events_zero by simp
  show ?thesis
    using a paired_Send_Receive [OF z small, of fuel orc seedS pp vec_m0 vec_m1 seedR vec_selection_bit]
      paired_OnesidedSend_OnesidedReceive [OF z small, of fuel orc seedS pp vec_m seedR vec_selection_bit]
    unfolding b c by simp
qed

theorem zero_length_accepted_witness:
  "CheckParameters 0 128 = Inr ()
   \<and> paired (Suc (Suc 0)) (Send toy_oracles (1, 0) (Setup (0::byte)) [] [] 0)
                          (Receive toy_oracles (2, 0) (Setup (0::byte)) [] 0) =
       Some (Finished (), Finished [],
             \<lparr>inbox = (\<lambda>_. []), ot_offer = None,
              wire = BaseOT_transcript #
                     concat (map (\<lambda>j. [Sent Receiver [], Sent Receiver []]) [0..<128]) @
                     [Sent Sender [], Sent Sender []]\<rparr>)
   \<and> paired (Suc (Suc 0)) (OnesidedSend toy_oracles (1, 0) (Setup (0::byte)) [] 0)
                          (OnesidedReceive toy_oracles (2, 0) (Setup (0::byte)) [] 0) =
       Some (Finished (), Finished [],
             \<lparr>inbox = (\<lambda>_. []), ot_offer = None,
              wire = BaseOT_transcript #
                     concat (map (\<lambda>j. [Sent Receiver [], Sent Receiver []]) [0..<128])\<rparr>)"
  by (rule zero_length_accepted)

end
